theory Spec2Isabelle
  imports Complex_Main "HOL-Library.Char_ord" "HOL-Library.List_Lexorder"
begin

section \<open>Values\<close>

text \<open>
  The engine of \<^verbatim>\<open>syntaxTrees/basics.py\<close> and \<^verbatim>\<open>syntaxTrees/fields.py\<close> validates
  values decoded from JSON. A Python float is a finite rational, an infinity or NaN; a
  Python dict is an association list in insertion order (its keys are distinct); an
  \<^verbatim>\<open>OrderedDict\<close> is the same list.
\<close>

datatype pyfloat = Finite rat | PosInf | NegInf | NaN

datatype json =
    JNull
  | JBool bool
  | JInt int
  | JFloat pyfloat
  | JStr string
  | JList "json list"
  | JDict "(string \<times> json) list"

text \<open>\<^verbatim>\<open>isinstance(x, dict)\<close>, \<^verbatim>\<open>isinstance(x, int)\<close> (a Python \<^verbatim>\<open>bool\<close> is an
  \<^verbatim>\<open>int\<close>), \<^verbatim>\<open>isinstance(x, (int, float))\<close> and
  \<^verbatim>\<open>isinstance(x, (str, int, float, bool))\<close>.\<close>

fun is_dict :: "json \<Rightarrow> bool" where
  "is_dict (JDict d) = True"
| "is_dict v = False"

fun is_int :: "json \<Rightarrow> bool" where
  "is_int (JInt i) = True"
| "is_int (JBool b) = True"
| "is_int v = False"

fun is_int_or_float :: "json \<Rightarrow> bool" where
  "is_int_or_float (JInt i) = True"
| "is_int_or_float (JBool b) = True"
| "is_int_or_float (JFloat f) = True"
| "is_int_or_float v = False"

fun is_primitive :: "json \<Rightarrow> bool" where
  "is_primitive (JStr s) = True"
| "is_primitive (JInt i) = True"
| "is_primitive (JFloat f) = True"
| "is_primitive (JBool b) = True"
| "is_primitive v = False"

text \<open>The number a finite numeric value stands for in a comparison (\<^verbatim>\<open>True\<close> is 1).\<close>

fun num_of :: "json \<Rightarrow> rat" where
  "num_of (JInt i) = of_int i"
| "num_of (JBool b) = (if b then 1 else 0)"
| "num_of (JFloat (Finite r)) = r"
| "num_of v = 0"

text \<open>Python's truth value of an object, as \<^verbatim>\<open>any\<close> tests it.\<close>

fun truthy :: "json \<Rightarrow> bool" where
  "truthy JNull = False"
| "truthy (JBool b) = b"
| "truthy (JInt i) = (i \<noteq> 0)"
| "truthy (JFloat f) = (f \<noteq> Finite 0)"
| "truthy (JStr s) = (s \<noteq> [])"
| "truthy (JList xs) = (xs \<noteq> [])"
| "truthy (JDict d) = (d \<noteq> [])"

subsection \<open>Dictionaries\<close>

text \<open>\<^verbatim>\<open>k in d\<close>, \<^verbatim>\<open>d[k] = v\<close> (an existing key keeps its position, a new key goes
  last) and \<^verbatim>\<open>d.move_to_end(k, last=False)\<close>.\<close>

definition dict_has :: "string \<Rightarrow> (string \<times> 'v) list \<Rightarrow> bool" where
  "dict_has k d = (map_of d k \<noteq> None)"

fun dict_set :: "string \<Rightarrow> 'v \<Rightarrow> (string \<times> 'v) list \<Rightarrow> (string \<times> 'v) list" where
  "dict_set k v [] = [(k, v)]"
| "dict_set k v (p # ps) = (if fst p = k then (k, v) # ps else p # dict_set k v ps)"

definition move_to_front :: "string \<Rightarrow> (string \<times> 'v) list \<Rightarrow> (string \<times> 'v) list" where
  "move_to_front k d =
     (case map_of d k of
        None \<Rightarrow> d
      | Some v \<Rightarrow> (k, v) # filter (\<lambda>p. fst p \<noteq> k) d)"

subsection \<open>Integers written as strings\<close>

text \<open>
  \<^verbatim>\<open>int(s)\<close> on a string: surrounding whitespace is dropped, one sign may lead, and the
  rest is decimal digits, where single underscores may stand between digits. Anything
  else is a \<^verbatim>\<open>ValueError\<close> (\<open>None\<close>). \<^verbatim>\<open>str(i)\<close> writes the decimal digits, with a
  leading minus sign for a negative number. Strings are ASCII here.
\<close>

definition is_space :: "char \<Rightarrow> bool" where
  "is_space c = (c \<in> set [CHR 0x09, CHR 0x0A, CHR 0x0B, CHR 0x0C, CHR 0x0D,
                            CHR 0x1C, CHR 0x1D, CHR 0x1E, CHR 0x1F, CHR 0x20])"

definition strip :: "string \<Rightarrow> string" where
  "strip s = rev (dropWhile is_space (rev (dropWhile is_space s)))"

definition digit_val :: "char \<Rightarrow> nat option" where
  "digit_val c =
     (let n = (of_char c :: nat) in if 48 \<le> n \<and> n \<le> 57 then Some (n - 48) else None)"

fun digits_value :: "nat \<Rightarrow> string \<Rightarrow> nat option" where
  "digits_value acc [] = Some acc"
| "digits_value acc [c] =
     (case digit_val c of None \<Rightarrow> None | Some v \<Rightarrow> Some (10 * acc + v))"
| "digits_value acc (c # d # ds) =
     (if c = CHR ''_'' then
        (case digit_val d of None \<Rightarrow> None | Some v \<Rightarrow> digits_value (10 * acc + v) ds)
      else
        (case digit_val c of None \<Rightarrow> None | Some v \<Rightarrow> digits_value (10 * acc + v) (d # ds)))"

definition unsigned_value :: "string \<Rightarrow> nat option" where
  "unsigned_value s =
     (case s of
        [] \<Rightarrow> None
      | c # cs \<Rightarrow> (case digit_val c of None \<Rightarrow> None | Some v \<Rightarrow> digits_value v cs))"

definition py_int :: "string \<Rightarrow> int option" where
  "py_int s =
     (case strip s of
        [] \<Rightarrow> None
      | c # cs \<Rightarrow>
          if c = CHR ''-'' then map_option (\<lambda>n. - int n) (unsigned_value cs)
          else if c = CHR ''+'' then map_option int (unsigned_value cs)
          else map_option int (unsigned_value (c # cs)))"

definition digit_char :: "nat \<Rightarrow> char" where
  "digit_char n = char_of (48 + n)"

fun str_of_nat :: "nat \<Rightarrow> string" where
  "str_of_nat n =
     (if n < 10 then [digit_char n] else str_of_nat (n div 10) @ [digit_char (n mod 10)])"

definition py_str :: "int \<Rightarrow> string" where
  "py_str i = (if i < 0 then CHR ''-'' # str_of_nat (nat (- i)) else str_of_nat (nat i))"

section \<open>Errors\<close>

text \<open>
  One constructor per message the engine raises, with the values the message is
  formatted from. \<^verbatim>\<open>InvalidParamsException\<close> is the error a caller can repair,
  \<^verbatim>\<open>ProgrammingError\<close> the internal one; the remaining constructors are Python's own
  exceptions where the code can raise them.
\<close>

datatype message =
    ValueMustBeDictionary
  | NotValidFieldName string "string list"
  | MissingRequiredField string
  | ValueMustNotBeNull
  | ValueNotAllowedToBeNull
  | ShortformNotDict
  | FieldAlreadyDefined string string
  | ValueOrChoice
  | SubmittedEmptyDictionary "string list"
  | KwargsDontMatch string "string list" "string list"
  | TypeNotValid json "string list"
  | TypeChangedByValidation
  | TypeNotRequested
  | NoValidWayToParse "string list"
  | AmbiguousValue "string list"
  | ValueMustBeList
  | ListTooShort int
  | CouldNotParseKey string message
  | KeyOccursMoreThanOnce string
  | MappingKeyNotString
  | ValueMustBeInteger
  | ValueMustBeIntOrFloat
  | ValueMustNotBeNaN
  | ValueMustNotBeInfinite
  | BelowMinimum rat
  | AboveMaximum rat
  | ValueMustBeBoolean
  | ValueNotAcceptable "string list"
  | ValueMustBeString
  | BelowMinimumLength int int
  | ExceedsMaximumLength int int
  | NotParsableInteger
  | NotInSelection string "string list"

datatype error =
    InvalidParamsException message
  | ProgrammingError message
  | KeyError string
  | TypeError
  | AttributeError
  | IndexError

section \<open>Fields\<close>

text \<open>
  The attributes \<^verbatim>\<open>Field.__init__\<close> stores. A default is Python's \<^verbatim>\<open>None\<close>, or a
  value: a primitive given literally or what the zero-argument generator returns.
  \<^verbatim>\<open>help\<close> and \<^verbatim>\<open>derived_field\<close> play no part in validation.
\<close>

record field_attrs =
  null_f :: bool
  default_f :: "json option"
  dont_auto_validate :: bool
  dont_print_default :: bool
  validation_accepts_nulls :: bool
  order_of_creation :: nat

definition required :: "field_attrs \<Rightarrow> bool" where
  "required a = (default_f a = None \<and> \<not> null_f a)"

text \<open>A keyword argument of a reference: a plain value, the marker
  \<^verbatim>\<open>PASS_ARG_ALONG\<close>, or an \<^verbatim>\<open>OverwriteKeywordArgOfField\<close> carrying a value.\<close>

datatype kwarg = Arg json | PASS_ARG_ALONG | OverwriteKeywordArgOfField json

type_synonym kwargs = "(string \<times> kwarg) list"

text \<open>
  The field classes of \<^verbatim>\<open>fields.py\<close>, each with the attributes of its base class.
  \<^verbatim>\<open>RegexString\<close> and \<^verbatim>\<open>StringVariableName\<close> are left out: the first rests on
  \<^verbatim>\<open>re.compile\<close>, the second on a helper the repository does not define.
\<close>

datatype field =
    Value field_attrs string kwargs
  | Choice field_attrs string kwargs
  | List field_attrs "string option" "string option" "field option" "int option" kwargs
  | Mapping field_attrs field field
  | PrimitiveValueOrGetter field_attrs field field
  | ArbitraryJson field_attrs
  | Integer field_attrs "int option" "int option"
  | Float field_attrs "rat option" "rat option"
  | Boolean field_attrs
  | MultipleChoiceSelection field_attrs "string list"
  | String field_attrs "int option" "int option"
  | IntegerAsString field_attrs "int option" "int option" "int option" "int option"
  | StringFromSelection field_attrs "int option" "int option" "string list"

fun attrs :: "field \<Rightarrow> field_attrs" where
  "attrs (Value a v kw) = a"
| "attrs (Choice a c kw) = a"
| "attrs (List a v c p m kw) = a"
| "attrs (Mapping a k c) = a"
| "attrs (PrimitiveValueOrGetter a p c) = a"
| "attrs (ArbitraryJson a) = a"
| "attrs (Integer a mn mx) = a"
| "attrs (Float a mn mx) = a"
| "attrs (Boolean a) = a"
| "attrs (MultipleChoiceSelection a cs) = a"
| "attrs (String a mn mx) = a"
| "attrs (IntegerAsString a mnl mxl mn mx) = a"
| "attrs (StringFromSelection a mnl mxl sel) = a"

subsection \<open>The scalar kinds\<close>

text \<open>\<^verbatim>\<open>Integer.helper_for_validation\<close>.\<close>

definition Integer_helper_for_validation :: "int option \<Rightarrow> int option \<Rightarrow> json \<Rightarrow> error + json" where
  "Integer_helper_for_validation mn mx val =
     (if \<not> is_int val then Inl (InvalidParamsException ValueMustBeInteger)
      else if mn \<noteq> None \<and> of_int (the mn) > num_of val
        then Inl (InvalidParamsException (BelowMinimum (of_int (the mn))))
      else if mx \<noteq> None \<and> of_int (the mx) < num_of val
        then Inl (InvalidParamsException (AboveMaximum (of_int (the mx))))
      else Inr val)"

text \<open>\<^verbatim>\<open>Float.helper_for_validation\<close>: the NaN and infinity tests come before the
  bounds.\<close>

definition Float_helper_for_validation :: "rat option \<Rightarrow> rat option \<Rightarrow> json \<Rightarrow> error + json" where
  "Float_helper_for_validation mn mx val =
     (if \<not> is_int_or_float val then Inl (InvalidParamsException ValueMustBeIntOrFloat)
      else if val = JFloat NaN then Inl (InvalidParamsException ValueMustNotBeNaN)
      else if val = JFloat PosInf \<or> val = JFloat NegInf
        then Inl (InvalidParamsException ValueMustNotBeInfinite)
      else if mn \<noteq> None \<and> the mn > num_of val
        then Inl (InvalidParamsException (BelowMinimum (the mn)))
      else if mx \<noteq> None \<and> the mx < num_of val
        then Inl (InvalidParamsException (AboveMaximum (the mx)))
      else Inr val)"

text \<open>\<^verbatim>\<open>Boolean.helper_for_validation\<close>.\<close>

definition Boolean_helper_for_validation :: "json \<Rightarrow> error + json" where
  "Boolean_helper_for_validation val =
     (case val of
        JBool b \<Rightarrow> Inr val
      | _ \<Rightarrow> Inl (InvalidParamsException ValueMustBeBoolean))"

text \<open>
  \<^verbatim>\<open>MultipleChoiceSelection.helper_for_validation\<close>. The choices are strings. The
  test \<^verbatim>\<open>any([a for a in val if a not in self.choices])\<close> collects the elements that
  are no choice and asks whether one of them is true as a Python object.
\<close>

definition MultipleChoiceSelection_helper_for_validation :: "string list \<Rightarrow> json \<Rightarrow> error + json" where
  "MultipleChoiceSelection_helper_for_validation choices val0 =
     (let val1 = (if val0 = JNull then JList [] else val0);
          val2 = (case val1 of JStr s \<Rightarrow> JList [val1] | _ \<Rightarrow> val1)
      in case val2 of
           JList xs \<Rightarrow>
             if list_ex truthy (filter (\<lambda>a. a \<notin> JStr ` set choices) xs)
             then Inl (InvalidParamsException (ValueNotAcceptable choices))
             else if length xs \<noteq> 0
               then Inr (JList (map JStr (filter (\<lambda>a. JStr a \<in> set xs) choices)))
               else Inr (JList xs)
         | _ \<Rightarrow> Inl (InvalidParamsException (ValueNotAcceptable choices)))"

text \<open>\<^verbatim>\<open>String.helper_for_validation\<close>.\<close>

definition String_helper_for_validation :: "int option \<Rightarrow> int option \<Rightarrow> json \<Rightarrow> error + json" where
  "String_helper_for_validation min_length max_length val =
     (case val of
        JStr s \<Rightarrow>
          if min_length \<noteq> None \<and> the min_length > int (length s)
            then Inl (InvalidParamsException
                        (BelowMinimumLength (the min_length) (the min_length - int (length s))))
          else if max_length \<noteq> None \<and> the max_length < int (length s)
            then Inl (InvalidParamsException
                        (ExceedsMaximumLength (the max_length) (int (length s) - the max_length)))
          else Inr val
      | _ \<Rightarrow> Inl (InvalidParamsException ValueMustBeString))"

text \<open>\<^verbatim>\<open>IntegerAsString.helper_for_validation\<close>: a failure of the string rule or of
  \<^verbatim>\<open>int\<close> becomes one message; the result is \<^verbatim>\<open>str(int(val))\<close>.\<close>

definition IntegerAsString_helper_for_validation ::
  "int option \<Rightarrow> int option \<Rightarrow> int option \<Rightarrow> int option \<Rightarrow> json \<Rightarrow> error + json" where
  "IntegerAsString_helper_for_validation min_length max_length mn mx val =
     (case String_helper_for_validation min_length max_length val of
        Inr (JStr s) \<Rightarrow>
          (case py_int s of
             None \<Rightarrow> Inl (InvalidParamsException NotParsableInteger)
           | Some i \<Rightarrow>
               if mn \<noteq> None \<and> the mn > i
                 then Inl (InvalidParamsException (BelowMinimum (of_int (the mn))))
               else if mx \<noteq> None \<and> the mx < i
                 then Inl (InvalidParamsException (AboveMaximum (of_int (the mx))))
               else Inr (JStr (py_str i)))
      | _ \<Rightarrow> Inl (InvalidParamsException NotParsableInteger))"

text \<open>\<^verbatim>\<open>StringFromSelection.helper_for_validation\<close>.\<close>

definition StringFromSelection_helper_for_validation ::
  "int option \<Rightarrow> int option \<Rightarrow> string list \<Rightarrow> json \<Rightarrow> error + json" where
  "StringFromSelection_helper_for_validation min_length max_length selection val =
     (case String_helper_for_validation min_length max_length val of
        Inr (JStr s) \<Rightarrow>
          if s \<notin> set selection
            then Inl (InvalidParamsException (NotInSelection s selection))
          else Inr (JStr s)
      | Inr v \<Rightarrow> Inr v
      | Inl e \<Rightarrow> Inl e)"

text \<open>
  \<^verbatim>\<open>ArbitraryJson.helper_for_validation\<close>: \<^verbatim>\<open>json.dumps(val, sort_keys=True)\<close> read
  back with \<^verbatim>\<open>json.loads\<close> sorts the keys of every dict; every value of type
  \<^typ>\<open>json\<close> can be written, so the \<^verbatim>\<open>except\<close> branch is not taken.
\<close>

fun sort_keys :: "json \<Rightarrow> json" where
  "sort_keys (JDict d) = JDict (sort_key fst (map (\<lambda>p. (fst p, sort_keys (snd p))) d))"
| "sort_keys (JList xs) = JList (map sort_keys xs)"
| "sort_keys v = v"

definition ArbitraryJson_helper_for_validation :: "json \<Rightarrow> error + json" where
  "ArbitraryJson_helper_for_validation val = Inr (sort_keys val)"

section \<open>Nodes, the registry and the context\<close>

text \<open>
  What the engine reads of a node class and its \<^verbatim>\<open>Meta\<close>; \<open>list_of_fields\<close> is the entry
  of \<^verbatim>\<open>_value_to_node_fields\<close> for the node. The registry holds
  \<^verbatim>\<open>_value_to_node\<close> and \<^verbatim>\<open>_choice_to_type_to_values\<close>.
\<close>

record node =
  name :: string
  choice_type :: "string option"
  shortform_field :: "field option"
  shortform_conversion :: "json \<Rightarrow> json"
  quietly_drop_superfluous_fields :: "string list"
  required_additional_arguments_for_validation :: "string list"
  list_of_fields :: "(string \<times> field) list"

record registry =
  value_to_node :: "(string \<times> node) list"
  choice_to_type_to_values :: "(string \<times> (string \<times> string) list) list"

text \<open>
  \<^verbatim>\<open>stack_objects\<close>: the trace, the object under scrutiny, the names of the slots that
  are shared rather than copied when alternatives are tried, and whatever else the caller
  put there.
\<close>

record stack_objects =
  node_trace :: "string list"
  current_object :: json
  immutable_fields :: "string list"
  other_slots :: "(string \<times> json) list"

type_synonym 'a outcome = "((error + 'a) \<times> stack_objects) option"

text \<open>
  \<^verbatim>\<open>with node_trace_step(stack_objects, new_value, object): body\<close>. Entering appends to
  the trace and sets the current object; leaving undoes both only when the body raised
  nothing. \<^verbatim>\<open>pop\<close> on an empty list is an \<^verbatim>\<open>IndexError\<close>.
\<close>

definition node_trace_step ::
  "string \<Rightarrow> json \<Rightarrow> (stack_objects \<Rightarrow> 'a outcome) \<Rightarrow> stack_objects \<Rightarrow> 'a outcome" where
  "node_trace_step new_value object body st =
     (case body (st\<lparr>node_trace := node_trace st @ [new_value], current_object := object\<rparr>) of
        None \<Rightarrow> None
      | Some (Inl e, st') \<Rightarrow> Some (Inl e, st')
      | Some (Inr r, st') \<Rightarrow>
          if node_trace st' = [] then Some (Inl IndexError, st')
          else Some (Inr r, st'\<lparr>node_trace := butlast (node_trace st'),
                                 current_object := current_object st\<rparr>))"

subsection \<open>Keyword arguments\<close>

text \<open>\<^verbatim>\<open>_get_kwargs_to_use\<close>: its two loops, then the function.\<close>

fun pass_args_along :: "kwargs \<Rightarrow> kwargs \<Rightarrow> kwargs \<Rightarrow> error + kwargs" where
  "pass_args_along given_kwargs [] res = Inr res"
| "pass_args_along given_kwargs ((k, v) # rest) res =
     (if v = PASS_ARG_ALONG then
        (case map_of given_kwargs k of
           None \<Rightarrow> Inl (KeyError k)
         | Some g \<Rightarrow> pass_args_along given_kwargs rest (dict_set k g res))
      else pass_args_along given_kwargs rest (dict_set k v res))"

fun overwrite_args :: "kwargs \<Rightarrow> kwargs \<Rightarrow> kwargs" where
  "overwrite_args [] res = res"
| "overwrite_args ((k, v) # rest) res =
     (case v of
        OverwriteKeywordArgOfField x \<Rightarrow> overwrite_args rest (dict_set k (Arg x) res)
      | _ \<Rightarrow> overwrite_args rest res)"

definition get_kwargs_to_use :: "kwargs \<Rightarrow> kwargs \<Rightarrow> error + kwargs" where
  "get_kwargs_to_use given_kwargs field_kwargs =
     (case pass_args_along given_kwargs field_kwargs [] of
        Inl e \<Rightarrow> Inl e
      | Inr res \<Rightarrow> Inr (overwrite_args given_kwargs res))"

text \<open>The test of \<^verbatim>\<open>execute_function_on_node\<close> that the keyword arguments are the
  ones a candidate requires.\<close>

definition kwargs_match :: "node \<Rightarrow> kwargs \<Rightarrow> bool" where
  "kwargs_match c kw =
     (length (required_additional_arguments_for_validation c) = length kw
      \<and> list_all (\<lambda>k. dict_has k kw) (required_additional_arguments_for_validation c))"

subsection \<open>Looking nodes up\<close>

definition lookup_node :: "registry \<Rightarrow> string \<Rightarrow> error + node" where
  "lookup_node reg v =
     (case map_of (value_to_node reg) v of None \<Rightarrow> Inl (KeyError v) | Some c \<Rightarrow> Inr c)"

fun lookup_nodes :: "registry \<Rightarrow> string list \<Rightarrow> error + node list" where
  "lookup_nodes reg [] = Inr []"
| "lookup_nodes reg (v # vs) =
     (case lookup_node reg v of
        Inl e \<Rightarrow> Inl e
      | Inr c \<Rightarrow> (case lookup_nodes reg vs of Inl e \<Rightarrow> Inl e | Inr cs \<Rightarrow> Inr (c # cs)))"

text \<open>\<^verbatim>\<open>_choice_to_type_to_values\<close> is a \<^verbatim>\<open>defaultdict(dict)\<close>: an unknown choice has
  no types.\<close>

definition type_to_values :: "registry \<Rightarrow> string option \<Rightarrow> (string \<times> string) list" where
  "type_to_values reg choice =
     (case choice of
        None \<Rightarrow> []
      | Some c \<Rightarrow> (case map_of (choice_to_type_to_values reg) c of None \<Rightarrow> [] | Some tv \<Rightarrow> tv))"

definition candidate_nodes :: "registry \<Rightarrow> string option \<Rightarrow> string option \<Rightarrow> error + node list" where
  "candidate_nodes reg val choice =
     (case val of
        Some v \<Rightarrow> (case lookup_node reg v of Inl e \<Rightarrow> Inl e | Inr c \<Rightarrow> Inr [c])
      | None \<Rightarrow> lookup_nodes reg (map snd (type_to_values reg choice)))"

text \<open>\<^verbatim>\<open>[a.Meta.choice_type for a in nodes]\<close>: a node without the attribute raises.\<close>

fun choice_types :: "node list \<Rightarrow> error + string list" where
  "choice_types [] = Inr []"
| "choice_types (c # cs) =
     (case choice_type c of
        None \<Rightarrow> Inl AttributeError
      | Some t \<Rightarrow> (case choice_types cs of Inl e \<Rightarrow> Inl e | Inr ts \<Rightarrow> Inr (t # ts)))"

section \<open>Validation\<close>

subsection \<open>A field validated without a context\<close>

text \<open>
  The shortform field of a node is validated by
  \<^verbatim>\<open>cls.Meta.shortform_field.validate(obj)\<close>: \<^verbatim>\<open>stack_objects\<close> and \<^verbatim>\<open>kwargs\<close> are
  \<^verbatim>\<open>None\<close>. A scalar kind does not read them. A reference evaluates
  \<^verbatim>\<open>_get_kwargs_to_use(None, self.kwargs)\<close> first, which subscripts \<^verbatim>\<open>None\<close> at the
  first \<^verbatim>\<open>PASS_ARG_ALONG\<close> and otherwise asks \<^verbatim>\<open>None\<close> for its items; a list or
  mapping with an element enters a trace step on \<^verbatim>\<open>None\<close>.
\<close>

fun Field_validate_without_context :: "field \<Rightarrow> json \<Rightarrow> error + json"
and helper_without_context :: "field \<Rightarrow> json \<Rightarrow> error + json" where
  "Field_validate_without_context f val =
     (if val = JNull then
        (if \<not> null_f (attrs f) then Inl (InvalidParamsException ValueNotAllowedToBeNull)
         else if validation_accepts_nulls (attrs f) then helper_without_context f val
         else Inr JNull)
      else helper_without_context f val)"
| "helper_without_context (Value a v fkw) val =
     (if PASS_ARG_ALONG \<in> snd ` set fkw then Inl TypeError else Inl AttributeError)"
| "helper_without_context (Choice a c fkw) val =
     (if PASS_ARG_ALONG \<in> snd ` set fkw then Inl TypeError else Inl AttributeError)"
| "helper_without_context (List a v c p min_length fkw) val =
     (case val of
        JList xs \<Rightarrow>
          if min_length \<noteq> None \<and> int (length xs) < the min_length
            then Inl (InvalidParamsException (ListTooShort (the min_length)))
          else if xs = [] then Inr (JList []) else Inl TypeError
      | _ \<Rightarrow> Inl (InvalidParamsException ValueMustBeList))"
| "helper_without_context (Mapping a string_key content) val =
     (case val of
        JDict d \<Rightarrow> if d = [] then Inr (JDict []) else Inl TypeError
      | _ \<Rightarrow> Inl (InvalidParamsException ValueMustBeDictionary))"
| "helper_without_context (PrimitiveValueOrGetter a primitive_field complex_field) val =
     (if is_primitive val then Field_validate_without_context primitive_field val
      else Field_validate_without_context complex_field val)"
| "helper_without_context (ArbitraryJson a) val = ArbitraryJson_helper_for_validation val"
| "helper_without_context (Integer a mn mx) val = Integer_helper_for_validation mn mx val"
| "helper_without_context (Float a mn mx) val = Float_helper_for_validation mn mx val"
| "helper_without_context (Boolean a) val = Boolean_helper_for_validation val"
| "helper_without_context (MultipleChoiceSelection a choices) val =
     MultipleChoiceSelection_helper_for_validation choices val"
| "helper_without_context (String a mnl mxl) val = String_helper_for_validation mnl mxl val"
| "helper_without_context (IntegerAsString a mnl mxl mn mx) val =
     IntegerAsString_helper_for_validation mnl mxl mn mx val"
| "helper_without_context (StringFromSelection a mnl mxl selection) val =
     StringFromSelection_helper_for_validation mnl mxl selection val"

subsection \<open>The parts of \<^verbatim>\<open>Node.validate\<close> and \<^verbatim>\<open>execute_function_on_node\<close> that do not recurse\<close>

text \<open>The first step of \<^verbatim>\<open>Node.validate\<close>: a value that is no dict goes through the
  shortform of the node, if it has one.\<close>

definition shortform_step :: "node \<Rightarrow> json \<Rightarrow> stack_objects \<Rightarrow> ((string \<times> json) list) outcome" where
  "shortform_step cls obj st =
     (case obj of
        JDict d \<Rightarrow> Some (Inr d, st)
      | _ \<Rightarrow>
          (case shortform_field cls of
             None \<Rightarrow> Some (Inl (InvalidParamsException ValueMustBeDictionary), st)
           | Some sf \<Rightarrow>
               node_trace_step ''conversion from shortform'' obj
                 (\<lambda>s. case Field_validate_without_context sf obj of
                         Inl e \<Rightarrow> Some (Inl e, s)
                       | Inr tmp \<Rightarrow>
                           (case shortform_conversion cls obj of
                              JDict d \<Rightarrow> Some (Inr d, s)
                            | _ \<Rightarrow> Some (Inl (ProgrammingError ShortformNotDict), s)))
                 st))"

text \<open>The key check of \<^verbatim>\<open>Node.validate\<close>: the first key that is neither dropped
  quietly, nor \<^verbatim>\<open>'type'\<close> on a node with a \<^verbatim>\<open>choice_type\<close>, nor a field name.\<close>

definition invalid_field_name :: "node \<Rightarrow> (string \<times> json) list \<Rightarrow> string option" where
  "invalid_field_name cls obj =
     find (\<lambda>k. \<not> (k \<in> set (quietly_drop_superfluous_fields cls)
                  \<or> (k = ''type'' \<and> choice_type cls \<noteq> None)
                  \<or> k \<in> set (map fst (list_of_fields cls))))
          (map fst obj)"

text \<open>What \<^verbatim>\<open>Node.validate\<close> stores for a field the input does not have.\<close>

definition default_value :: "field \<Rightarrow> json" where
  "default_value f = (case default_f (attrs f) of None \<Rightarrow> JNull | Some v \<Rightarrow> v)"

text \<open>\<^verbatim>\<open>ordered_field_names.index(k)\<close>, and the final
  \<^verbatim>\<open>OrderedDict(sorted(res_dict.items(), key=...))\<close>; Python's sort is stable, as
  \<^const>\<open>sort_key\<close> is.\<close>

fun index_of :: "string list \<Rightarrow> string \<Rightarrow> nat" where
  "index_of [] k = 0"
| "index_of (x # xs) k = (if x = k then 0 else Suc (index_of xs k))"

definition order_result :: "string list \<Rightarrow> (string \<times> json) list \<Rightarrow> (string \<times> json) list" where
  "order_result ordered_field_names res_dict =
     sort_key (\<lambda>p. index_of ordered_field_names (fst p)) res_dict"

text \<open>\<^verbatim>\<open>obj['type']\<close> where \<^verbatim>\<open>obj\<close> is a dict that has the key.\<close>

definition type_of_obj :: "json \<Rightarrow> json option" where
  "type_of_obj obj = (case obj of JDict d \<Rightarrow> map_of d ''type'' | _ \<Rightarrow> None)"

text \<open>
  The choice of the node in \<^verbatim>\<open>execute_function_on_node\<close>: the only candidate, or the
  member of the group that the \<^verbatim>\<open>'type'\<close> of the input names, or none. A list or dict
  cannot be looked up in a dict (\<^verbatim>\<open>TypeError\<close>).
\<close>

definition select_node ::
  "registry \<Rightarrow> node list \<Rightarrow> json \<Rightarrow> string option \<Rightarrow> error + node option" where
  "select_node reg candidates obj choice =
     (case candidates of
        [c] \<Rightarrow> Inr (Some c)
      | _ \<Rightarrow>
          (case type_of_obj obj of
             None \<Rightarrow> Inr None
           | Some provided_type \<Rightarrow>
               (case provided_type of
                  JStr t \<Rightarrow>
                    (case map_of (type_to_values reg choice) t of
                       None \<Rightarrow> Inl (InvalidParamsException
                                      (TypeNotValid provided_type (map fst (type_to_values reg choice))))
                     | Some v \<Rightarrow> (case lookup_node reg v of Inl e \<Rightarrow> Inl e | Inr c \<Rightarrow> Inr (Some c)))
                | JList xs \<Rightarrow> Inl TypeError
                | JDict d \<Rightarrow> Inl TypeError
                | _ \<Rightarrow> Inl (InvalidParamsException
                               (TypeNotValid provided_type (map fst (type_to_values reg choice)))))))"

text \<open>What \<^verbatim>\<open>execute_function_on_node\<close> does with the result of the selected node
  after \<^verbatim>\<open>validate\<close>: the \<^verbatim>\<open>'type'\<close> is checked or set, and moved to the front.\<close>

definition add_type ::
  "node \<Rightarrow> node list \<Rightarrow> json \<Rightarrow> (string \<times> json) list \<Rightarrow> error + (string \<times> json) list" where
  "add_type selected_node candidates obj res_obj =
     (case choice_type selected_node of
        None \<Rightarrow> Inr res_obj
      | Some t \<Rightarrow>
          if type_of_obj obj \<noteq> None \<and> type_of_obj obj \<noteq> Some (JStr t)
            then Inl (ProgrammingError TypeChangedByValidation)
          else
            (case map_of res_obj ''type'' of
               Some rt \<Rightarrow>
                 (case choice_types candidates of
                    Inl e \<Rightarrow> Inl e
                  | Inr ts \<Rightarrow>
                      if rt \<notin> JStr ` set ts then Inl (ProgrammingError TypeNotRequested)
                      else Inr (move_to_front ''type'' res_obj))
             | None \<Rightarrow> Inr (move_to_front ''type'' (dict_set ''type'' (JStr t) res_obj))))"

text \<open>
  The copy of the context a candidate is tried on holds the same values as the live
  context. A slot named in \<^verbatim>\<open>immutable_fields\<close> is the same object in both, so that a
  change made in place shows in the live context; the engine changes one slot in place,
  the trace list (\<^verbatim>\<open>append\<close>, \<^verbatim>\<open>pop\<close>), and rebinds the others. \<open>after_candidate\<close> is
  the live context once a candidate has run on its copy and left it as \<open>copy\<close>;
  \<open>adopt\<close> is \<^verbatim>\<open>stack_objects.clear()\<close> followed by the loop that stores the slots of
  the winning copy.
\<close>

definition after_candidate :: "stack_objects \<Rightarrow> stack_objects \<Rightarrow> stack_objects" where
  "after_candidate live copy =
     (if ''node_trace'' \<in> set (immutable_fields live)
      then live\<lparr>node_trace := node_trace copy\<rparr> else live)"

definition adopt :: "stack_objects \<Rightarrow> stack_objects \<Rightarrow> stack_objects" where
  "adopt live copy =
     (if ''node_trace'' \<in> set (immutable_fields live)
      then copy\<lparr>node_trace := node_trace live\<rparr> else copy)"

text \<open>What a candidate is validated on: the input, or its shortform conversion.\<close>

definition candidate_input :: "node \<Rightarrow> json \<Rightarrow> error + json" where
  "candidate_input candidate_node obj =
     (if shortform_field candidate_node \<noteq> None \<and> \<not> is_dict obj then
        (case Field_validate_without_context (the (shortform_field candidate_node)) obj of
           Inl e \<Rightarrow> Inl e
         | Inr tmp \<Rightarrow>
             if \<not> is_dict (shortform_conversion candidate_node obj)
               then Inl (ProgrammingError ShortformNotDict)
             else Inr (shortform_conversion candidate_node obj))
      else if \<not> is_dict obj then Inl (InvalidParamsException ValueMustBeDictionary)
      else Inr obj)"

subsection \<open>Sequencing\<close>

text \<open>A statement after a call runs only when the call returned: an error, or a run
  beyond the depth bound, ends the function with the context as it is then.\<close>

definition bind :: "'a outcome \<Rightarrow> ('a \<Rightarrow> stack_objects \<Rightarrow> 'b outcome) \<Rightarrow> 'b outcome" where
  "bind m f =
     (case m of
        None \<Rightarrow> None
      | Some (r, st) \<Rightarrow> (case r of Inl e \<Rightarrow> Some (Inl e, st) | Inr x \<Rightarrow> f x st))"

definition raise :: "error \<Rightarrow> stack_objects \<Rightarrow> 'a outcome" where
  "raise e st = Some (Inl e, st)"

definition return :: "'a \<Rightarrow> stack_objects \<Rightarrow> 'a outcome" where
  "return x st = Some (Inr x, st)"

text \<open>A result or error computed without the context.\<close>

definition lift :: "error + 'a \<Rightarrow> stack_objects \<Rightarrow> 'a outcome" where
  "lift r st = Some (r, st)"

subsection \<open>The loops\<close>

text \<open>
  The loops of the engine, each over the call it makes per element. The loop of
  \<^verbatim>\<open>List.helper_for_validation\<close>: element \<open>i\<close> is validated inside the trace step
  \<^verbatim>\<open>"index %d" % i\<close>.
\<close>

fun List_loop ::
  "(json \<Rightarrow> stack_objects \<Rightarrow> json outcome) \<Rightarrow> nat \<Rightarrow> json list \<Rightarrow> stack_objects \<Rightarrow>
   (json list) outcome" where
  "List_loop validate_element i [] st = return [] st"
| "List_loop validate_element i (element # rest) st =
     bind (node_trace_step (''index '' @ str_of_nat i) element (validate_element element) st)
       (\<lambda>validated_element st'.
          bind (List_loop validate_element (Suc i) rest st')
            (\<lambda>res. return (validated_element # res)))"

text \<open>
  The loop of \<^verbatim>\<open>Mapping.helper_for_validation\<close>. An \<^verbatim>\<open>InvalidParamsException\<close> of the
  key is raised again with the key in its message. The keys that the string fields
  return are strings; the constructor of \<^verbatim>\<open>Mapping\<close> refuses any other key field, which
  the last case stands for.
\<close>

fun Mapping_loop ::
  "(json \<Rightarrow> stack_objects \<Rightarrow> json outcome) \<Rightarrow> (json \<Rightarrow> stack_objects \<Rightarrow> json outcome) \<Rightarrow>
   (string \<times> json) list \<Rightarrow> stack_objects \<Rightarrow> (string \<times> json) list \<Rightarrow>
   ((string \<times> json) list) outcome" where
  "Mapping_loop validate_key validate_content [] st res = return res st"
| "Mapping_loop validate_key validate_content ((k, v) # rest) st res =
     (case node_trace_step ''key'' (JStr k) (validate_key (JStr k)) st of
        None \<Rightarrow> None
      | Some (Inl e, st1) \<Rightarrow>
          (case e of
             InvalidParamsException m \<Rightarrow>
               raise (InvalidParamsException (CouldNotParseKey k m)) st1
           | _ \<Rightarrow> raise e st1)
      | Some (Inr validated_key, st1) \<Rightarrow>
          bind (node_trace_step (''value for key '' @ [CHR 0x27] @ k @ [CHR 0x27]) v
                  (validate_content v) st1)
            (\<lambda>validated_value st2.
               case validated_key of
                 JStr vk \<Rightarrow>
                   if dict_has vk res
                     then raise (InvalidParamsException (KeyOccursMoreThanOnce vk)) st2
                   else Mapping_loop validate_key validate_content rest st2
                          (dict_set vk validated_value res)
               | _ \<Rightarrow> raise (ProgrammingError MappingKeyNotString) st2))"

text \<open>The loop of \<^verbatim>\<open>Node.validate\<close> over the fields of the node, in their order.\<close>

definition field_result ::
  "(field \<Rightarrow> json \<Rightarrow> stack_objects \<Rightarrow> json outcome) \<Rightarrow> string \<Rightarrow> field \<Rightarrow>
   (string \<times> json) list \<Rightarrow> stack_objects \<Rightarrow> (string \<times> json) list \<Rightarrow>
   ((string \<times> json) list) outcome" where
  "field_result validate_field field_name field obj st res_dict =
     (case map_of obj field_name of
        Some field_value \<Rightarrow>
          bind (node_trace_step field_name field_value (validate_field field field_value) st)
            (\<lambda>v. return (dict_set field_name v res_dict))
      | None \<Rightarrow>
          if required (attrs field)
            then raise (InvalidParamsException (MissingRequiredField field_name)) st
          else if \<not> dont_print_default (attrs field)
            then return (dict_set field_name (default_value field) res_dict) st
          else return res_dict st)"

fun validate_fields ::
  "(field \<Rightarrow> json \<Rightarrow> stack_objects \<Rightarrow> json outcome) \<Rightarrow> (string \<times> field) list \<Rightarrow>
   (string \<times> json) list \<Rightarrow> stack_objects \<Rightarrow> (string \<times> json) list \<Rightarrow>
   ((string \<times> json) list) outcome" where
  "validate_fields validate_field [] obj st res_dict = return res_dict st"
| "validate_fields validate_field ((field_name, field) # rest) obj st res_dict =
     (if dont_auto_validate (attrs field)
        then validate_fields validate_field rest obj st res_dict
      else
        bind (field_result validate_field field_name field obj st res_dict)
          (\<lambda>res1 st1.
             if \<not> dont_print_default (attrs field) \<and> map_of res1 field_name = Some JNull
                \<and> \<not> null_f (attrs field)
               then raise (InvalidParamsException ValueMustNotBeNull) st1
             else validate_fields validate_field rest obj st1 res1))"

text \<open>
  The loop of \<^verbatim>\<open>execute_function_on_node\<close> over the candidates. Each runs on a copy of
  the live context; an \<^verbatim>\<open>InvalidParamsException\<close> is swallowed, any other error leaves
  the loop, and a success is recorded with the copy it ran on.
\<close>

fun try_candidates ::
  "(node \<Rightarrow> json \<Rightarrow> stack_objects \<Rightarrow> ((string \<times> json) list) outcome) \<Rightarrow> node list \<Rightarrow> json \<Rightarrow>
   stack_objects \<Rightarrow> ((node \<times> (string \<times> json) list \<times> stack_objects) list) outcome" where
  "try_candidates validate_node [] obj st = return [] st"
| "try_candidates validate_node (candidate_node # rest) obj st =
     (case candidate_input candidate_node obj of
        Inl e \<Rightarrow>
          (case e of
             InvalidParamsException m \<Rightarrow> try_candidates validate_node rest obj st
           | _ \<Rightarrow> raise e st)
      | Inr tmp_obj \<Rightarrow>
          (case validate_node candidate_node tmp_obj st of
             None \<Rightarrow> None
           | Some (Inl e, copy_of_stack_objects) \<Rightarrow>
               (case e of
                  InvalidParamsException m \<Rightarrow>
                    try_candidates validate_node rest obj (after_candidate st copy_of_stack_objects)
                | _ \<Rightarrow> raise e (after_candidate st copy_of_stack_objects))
           | Some (Inr res_obj, copy_of_stack_objects) \<Rightarrow>
               bind (try_candidates validate_node rest obj (after_candidate st copy_of_stack_objects))
                 (\<lambda>successes. return ((candidate_node, res_obj, copy_of_stack_objects) # successes))))"

subsection \<open>Fields, nodes and references\<close>

text \<open>
  \<^verbatim>\<open>Field.validate\<close> (called without \<^verbatim>\<open>allow_null\<close>, as the engine does) and
  \<^verbatim>\<open>helper_for_validation\<close> of every field class. Their first argument is the call of
  \<^verbatim>\<open>execute_function_on_node\<close> with the function \<^verbatim>\<open>'validate'\<close>, which the two
  reference fields and the list field make.
\<close>

type_synonym execute =
  "json \<Rightarrow> stack_objects \<Rightarrow> kwargs \<Rightarrow> string option \<Rightarrow> string option \<Rightarrow> json outcome"

fun Field_validate :: "execute \<Rightarrow> field \<Rightarrow> json \<Rightarrow> stack_objects \<Rightarrow> kwargs \<Rightarrow> json outcome"
and helper_for_validation :: "execute \<Rightarrow> field \<Rightarrow> json \<Rightarrow> stack_objects \<Rightarrow> kwargs \<Rightarrow> json outcome"
where
  "Field_validate exec f val st kw =
     (if val = JNull then
        (if \<not> null_f (attrs f) then raise (InvalidParamsException ValueNotAllowedToBeNull) st
         else if validation_accepts_nulls (attrs f) then helper_for_validation exec f val st kw
         else return JNull st)
      else helper_for_validation exec f val st kw)"
| "helper_for_validation exec (Value a v fkw) val st kw =
     (case get_kwargs_to_use kw fkw of
        Inl e \<Rightarrow> raise e st
      | Inr kw' \<Rightarrow> exec val st kw' (Some v) None)"
| "helper_for_validation exec (Choice a c fkw) val st kw =
     (case get_kwargs_to_use kw fkw of
        Inl e \<Rightarrow> raise e st
      | Inr kw' \<Rightarrow> exec val st kw' None (Some c))"
| "helper_for_validation exec (List a v c primitive min_length fkw) val st kw =
     (case val of
        JList xs \<Rightarrow>
          if min_length \<noteq> None \<and> int (length xs) < the min_length
            then raise (InvalidParamsException (ListTooShort (the min_length))) st
          else
            bind (List_loop
                    (\<lambda>element s.
                       case primitive of
                         Some p \<Rightarrow>
                           if is_primitive element \<or> (v = None \<and> c = None)
                             then Field_validate exec p element s kw
                           else (case get_kwargs_to_use kw fkw of
                                   Inl e \<Rightarrow> raise e s
                                 | Inr kw' \<Rightarrow> exec element s kw' v c)
                       | None \<Rightarrow>
                           (case get_kwargs_to_use kw fkw of
                              Inl e \<Rightarrow> raise e s
                            | Inr kw' \<Rightarrow> exec element s kw' v c))
                    0 xs st)
              (\<lambda>res. return (JList res))
      | _ \<Rightarrow> raise (InvalidParamsException ValueMustBeList) st)"
| "helper_for_validation exec (Mapping a string_key content) val st kw =
     (case val of
        JDict d \<Rightarrow>
          bind (Mapping_loop (\<lambda>k s. Field_validate exec string_key k s kw)
                             (\<lambda>v s. Field_validate exec content v s kw) d st [])
            (\<lambda>res.
               case string_key of
                 IntegerAsString ka mnl mxl mn mx \<Rightarrow>
                   return (JDict (sort_key (\<lambda>t. the (py_int (fst t))) res))
               | _ \<Rightarrow> return (JDict (sort_key fst res)))
      | _ \<Rightarrow> raise (InvalidParamsException ValueMustBeDictionary) st)"
| "helper_for_validation exec (PrimitiveValueOrGetter a primitive_field complex_field) val st kw =
     (if is_primitive val then Field_validate exec primitive_field val st kw
      else Field_validate exec complex_field val st kw)"
| "helper_for_validation exec (ArbitraryJson a) val st kw =
     lift (ArbitraryJson_helper_for_validation val) st"
| "helper_for_validation exec (Integer a mn mx) val st kw =
     lift (Integer_helper_for_validation mn mx val) st"
| "helper_for_validation exec (Float a mn mx) val st kw =
     lift (Float_helper_for_validation mn mx val) st"
| "helper_for_validation exec (Boolean a) val st kw =
     lift (Boolean_helper_for_validation val) st"
| "helper_for_validation exec (MultipleChoiceSelection a choices) val st kw =
     lift (MultipleChoiceSelection_helper_for_validation choices val) st"
| "helper_for_validation exec (String a mnl mxl) val st kw =
     lift (String_helper_for_validation mnl mxl val) st"
| "helper_for_validation exec (IntegerAsString a mnl mxl mn mx) val st kw =
     lift (IntegerAsString_helper_for_validation mnl mxl mn mx val) st"
| "helper_for_validation exec (StringFromSelection a mnl mxl selection) val st kw =
     lift (StringFromSelection_helper_for_validation mnl mxl selection val) st"

text \<open>\<^verbatim>\<open>Node.validate\<close>, the method of the base class.\<close>

definition Node_validate ::
  "execute \<Rightarrow> node \<Rightarrow> json \<Rightarrow> stack_objects \<Rightarrow> kwargs \<Rightarrow> ((string \<times> json) list) outcome" where
  "Node_validate exec cls obj st kw =
     bind (shortform_step cls obj st)
       (\<lambda>d st1.
          case invalid_field_name cls d of
            Some k \<Rightarrow>
              raise (InvalidParamsException
                       (NotValidFieldName k (map fst (list_of_fields cls)))) st1
          | None \<Rightarrow>
              bind (validate_fields (\<lambda>field field_value s. Field_validate exec field field_value s kw)
                      (list_of_fields cls) d st1 [])
                (\<lambda>res_dict. return (order_result (map fst (list_of_fields cls)) res_dict)))"

text \<open>
  The end of the search of \<^verbatim>\<open>execute_function_on_node\<close>, by the number of candidates
  that validated.
\<close>

definition resolve ::
  "node list \<Rightarrow> (node \<times> (string \<times> json) list \<times> stack_objects) list \<Rightarrow> stack_objects \<Rightarrow>
   json outcome" where
  "resolve candidates successful_parsing_values st =
     (case successful_parsing_values of
        [(candidate_node, res_obj, copy_of_stack_objects)] \<Rightarrow>
          (case choice_type candidate_node of
             None \<Rightarrow> raise AttributeError st
           | Some t \<Rightarrow>
               return (JDict (move_to_front ''type'' (dict_set ''type'' (JStr t) res_obj)))
                      (adopt st copy_of_stack_objects))
      | [] \<Rightarrow>
          (case choice_types candidates of
             Inl e \<Rightarrow> raise e st
           | Inr ts \<Rightarrow> raise (InvalidParamsException (NoValidWayToParse ts)) st)
      | _ \<Rightarrow>
          (case choice_types (map fst successful_parsing_values) of
             Inl e \<Rightarrow> raise e st
           | Inr ts \<Rightarrow> raise (InvalidParamsException (AmbiguousValue ts)) st))"

text \<open>
  The body of \<^verbatim>\<open>execute_function_on_node\<close> for the function \<^verbatim>\<open>'validate'\<close>. The nodes
  modelled validate by \<^verbatim>\<open>Node.validate\<close>. \<open>exec\<close> is the function itself, for the
  references inside the node.
\<close>

definition execute_body ::
  "registry \<Rightarrow> execute \<Rightarrow> json \<Rightarrow> stack_objects \<Rightarrow> kwargs \<Rightarrow> string option \<Rightarrow> string option \<Rightarrow>
   json outcome" where
  "execute_body reg exec obj st kw val choice =
     (if (val = None) = (choice = None) then raise (ProgrammingError ValueOrChoice) st
      else
        (case candidate_nodes reg val choice of
           Inl e \<Rightarrow> raise e st
         | Inr candidates \<Rightarrow>
             if length candidates > 1 \<and> obj = JDict []
               then raise (InvalidParamsException
                             (SubmittedEmptyDictionary (map name candidates))) st
             else
               (case find (\<lambda>c. \<not> kwargs_match c kw) candidates of
                  Some c \<Rightarrow>
                    raise (ProgrammingError
                             (KwargsDontMatch (name c) (map fst kw)
                                (required_additional_arguments_for_validation c))) st
                | None \<Rightarrow>
                    (case select_node reg candidates obj choice of
                       Inl e \<Rightarrow> raise e st
                     | Inr (Some selected_node) \<Rightarrow>
                         bind (Node_validate exec selected_node obj st kw)
                           (\<lambda>res_obj st'.
                              case add_type selected_node candidates obj res_obj of
                                Inl e \<Rightarrow> raise e st'
                              | Inr res \<Rightarrow> return (JDict res) st')
                     | Inr None \<Rightarrow>
                         bind (try_candidates (\<lambda>c tmp_obj s. Node_validate exec c tmp_obj s kw)
                                 candidates obj st)
                           (resolve candidates)))))"

text \<open>
  \<^verbatim>\<open>execute_function_on_node\<close>. A shortform conversion may return a value larger than
  its argument, so the recursion through the nodes need not end: the first argument bounds
  the number of nested calls, as the interpreter's recursion limit does, and \<open>None\<close> is
  the value of a run that needs more.
\<close>

primrec execute_function_on_node :: "nat \<Rightarrow> registry \<Rightarrow> execute" where
  "execute_function_on_node 0 reg = (\<lambda>obj st kw val choice. None)"
| "execute_function_on_node (Suc n) reg = execute_body reg (execute_function_on_node n reg)"

section \<open>An example grammar\<close>

text \<open>
  The nodes \<^verbatim>\<open>constant\<close> and \<^verbatim>\<open>sum\<close> of \<^verbatim>\<open>nodesExample.py\<close>, whose \<^verbatim>\<open>validate\<close> only
  calls the method of the base class. Both inherit \<^verbatim>\<open>_comment\<close> and the required
  keyword argument from \<^verbatim>\<open>AbstractNodeForNumbers\<close>. \<open>note_node\<close> is such a node with no
  field of its own; \<open>broken_constant_node\<close> is \<^verbatim>\<open>constant\<close> with a shortform conversion
  that returns its argument.
\<close>

definition field_defaults :: field_attrs where
  "field_defaults =
     \<lparr>null_f = False, default_f = None, dont_auto_validate = False,
      dont_print_default = False, validation_accepts_nulls = False, order_of_creation = 0\<rparr>"

definition comment_field :: field where
  "comment_field =
     String (field_defaults\<lparr>null_f := True, dont_print_default := True, order_of_creation := 0\<rparr>)
            None (Some 10000)"

definition val_field :: field where
  "val_field = Float (field_defaults\<lparr>order_of_creation := 1\<rparr>) (Some (- 1000)) (Some 1000)"

definition summands_field :: field where
  "summands_field =
     List (field_defaults\<lparr>order_of_creation := 7\<rparr>) None (Some ''numerical_node'') None None
          [(''allow_user_input_node'', PASS_ARG_ALONG)]"

definition constant_node :: node where
  "constant_node =
     \<lparr>name = ''constant'', choice_type = Some ''constant'',
      shortform_field = Some (Float (field_defaults\<lparr>order_of_creation := 2\<rparr>) None None),
      shortform_conversion = (\<lambda>shortform_value. JDict [(''val'', shortform_value)]),
      quietly_drop_superfluous_fields = [],
      required_additional_arguments_for_validation = [''allow_user_input_node''],
      list_of_fields = [(''_comment'', comment_field), (''val'', val_field)]\<rparr>"

definition sum_node :: node where
  "sum_node =
     \<lparr>name = ''sum'', choice_type = Some ''sum'',
      shortform_field = None,
      shortform_conversion = (\<lambda>shortform_value. shortform_value),
      quietly_drop_superfluous_fields = [],
      required_additional_arguments_for_validation = [''allow_user_input_node''],
      list_of_fields = [(''_comment'', comment_field), (''summands'', summands_field)]\<rparr>"

definition note_node :: node where
  "note_node =
     \<lparr>name = ''note'', choice_type = Some ''note'',
      shortform_field = None,
      shortform_conversion = (\<lambda>shortform_value. shortform_value),
      quietly_drop_superfluous_fields = [],
      required_additional_arguments_for_validation = [''allow_user_input_node''],
      list_of_fields = [(''_comment'', comment_field)]\<rparr>"

definition broken_constant_node :: node where
  "broken_constant_node = constant_node\<lparr>shortform_conversion := (\<lambda>shortform_value. shortform_value)\<rparr>"

definition example_registry :: registry where
  "example_registry =
     \<lparr>value_to_node = [(''constant'', constant_node), (''sum'', sum_node)],
      choice_to_type_to_values =
        [(''numerical_node'', [(''constant'', ''constant''), (''sum'', ''sum'')])]\<rparr>"

definition note_registry :: registry where
  "note_registry =
     \<lparr>value_to_node = [(''constant'', constant_node), (''note'', note_node)],
      choice_to_type_to_values =
        [(''numerical_node'', [(''constant'', ''constant''), (''note'', ''note'')])]\<rparr>"

text \<open>The context and keyword arguments of \<^verbatim>\<open>validate_example_object\<close>.\<close>

definition initial_stack_objects :: stack_objects where
  "initial_stack_objects =
     \<lparr>node_trace = [], current_object = JNull, immutable_fields = [], other_slots = []\<rparr>"

definition initial_kwargs :: kwargs where
  "initial_kwargs = [(''allow_user_input_node'', Arg (JBool True))]"

section \<open>The fields of a node class\<close>

text \<open>
  \<^verbatim>\<open>NodeSubclassDeclarationWatcher.__init__\<close> computes the field list of a node class
  from \<^verbatim>\<open>cls.mro()\<close>. A class is given here by the entries of its \<^verbatim>\<open>__dict__\<close> that are
  fields, in the order of the class body, and \<open>mro\<close> lists the classes of the resolution
  order that derive from \<^verbatim>\<open>Node\<close>, the class itself first. A trailing underscore is cut
  from a name; a name that is met again must be listed in
  \<^verbatim>\<open>Meta.overwrites_existing_fields\<close>; \<^verbatim>\<open>dict_of_fields[k] = v\<close> keeps the place of a
  name that is met again and replaces its field; the final sort is by the
  \<^verbatim>\<open>order_of_creation\<close> of the fields in the dict.
\<close>

definition field_name_of :: "string \<Rightarrow> string" where
  "field_name_of k = (if k \<noteq> [] \<and> last k = CHR ''_'' then butlast k else k)"

fun add_class_fields ::
  "string \<Rightarrow> string list \<Rightarrow> (string \<times> field) list \<Rightarrow> (string \<times> field) list \<Rightarrow>
   error + (string \<times> field) list" where
  "add_class_fields node_name overwrites [] dict_of_fields = Inr dict_of_fields"
| "add_class_fields node_name overwrites ((k, v) # rest) dict_of_fields =
     (if dict_has (field_name_of k) dict_of_fields \<and> field_name_of k \<notin> set overwrites
      then Inl (ProgrammingError (FieldAlreadyDefined (field_name_of k) node_name))
      else add_class_fields node_name overwrites rest
             (dict_set (field_name_of k) v dict_of_fields))"

fun add_superclasses ::
  "string \<Rightarrow> string list \<Rightarrow> (string \<times> field) list list \<Rightarrow> (string \<times> field) list \<Rightarrow>
   error + (string \<times> field) list" where
  "add_superclasses node_name overwrites [] dict_of_fields = Inr dict_of_fields"
| "add_superclasses node_name overwrites (superclass # rest) dict_of_fields =
     (case add_class_fields node_name overwrites superclass dict_of_fields of
        Inl e \<Rightarrow> Inl e
      | Inr d \<Rightarrow> add_superclasses node_name overwrites rest d)"

definition merged_fields ::
  "string \<Rightarrow> string list \<Rightarrow> (string \<times> field) list list \<Rightarrow> error + (string \<times> field) list" where
  "merged_fields node_name overwrites mro =
     (case add_superclasses node_name overwrites (rev mro) [] of
        Inl e \<Rightarrow> Inl e
      | Inr dict_of_fields \<Rightarrow>
          Inr (sort_key (\<lambda>a. order_of_creation (attrs (snd a))) dict_of_fields))"

text \<open>All declarations of the hierarchy under their field names, from the most general
  class to the class itself.\<close>

definition declarations :: "(string \<times> field) list list \<Rightarrow> (string \<times> field) list" where
  "declarations mro = map (\<lambda>p. (field_name_of (fst p), snd p)) (concat (rev mro))"

text \<open>The order the claim describes: the names by where each was first introduced, from
  the most general class to the class itself.\<close>

definition names_by_first_introduction :: "(string \<times> field) list list \<Rightarrow> string list" where
  "names_by_first_introduction mro = rev (remdups (rev (map fst (declarations mro))))"

text \<open>A base class declaring \<^verbatim>\<open>a\<close> and \<^verbatim>\<open>b\<close>, and a subclass that declares \<^verbatim>\<open>a\<close>
  again, as its \<^verbatim>\<open>Meta.overwrites_existing_fields\<close> allows.\<close>

definition base_class_fields :: "(string \<times> field) list" where
  "base_class_fields =
     [(''a'', Integer (field_defaults\<lparr>order_of_creation := 0\<rparr>) None None),
      (''b'', Integer (field_defaults\<lparr>order_of_creation := 1\<rparr>) None None)]"

definition subclass_fields :: "(string \<times> field) list" where
  "subclass_fields = [(''a'', String (field_defaults\<lparr>order_of_creation := 2\<rparr>) None None)]"

section \<open>Predicates of the statements\<close>



text \<open>The slot of the context dict under a key.\<close>

definition slot :: "string \<Rightarrow> stack_objects \<Rightarrow> json option" where
  "slot k st =
     (if k = ''node_trace'' then Some (JList (map JStr (node_trace st)))
      else if k = ''current_object'' then Some (current_object st)
      else if k = ''immutable_fields'' then Some (JList (map JStr (immutable_fields st)))
      else map_of (other_slots st) k)"





text \<open>
  The context \<open>s'\<close> continues \<open>s\<close>: its trace is the trace of \<open>s\<close> with steps added at
  the end, and its \<^verbatim>\<open>immutable_fields\<close> are those of \<open>s\<close>. An outcome continues \<open>s\<close> when
  the context it ends in does.
\<close>

definition trace_extends :: "stack_objects \<Rightarrow> stack_objects \<Rightarrow> bool" where
  "trace_extends s s' =
     ((\<exists>ys. node_trace s' = node_trace s @ ys) \<and> immutable_fields s' = immutable_fields s)"

definition outcome_extends :: "stack_objects \<Rightarrow> 'a outcome \<Rightarrow> bool" where
  "outcome_extends s out = (case out of None \<Rightarrow> True | Some (r, s') \<Rightarrow> trace_extends s s')"

text \<open>The string fields, which the constructor of \<^verbatim>\<open>Mapping\<close> requires for the keys.\<close>

fun is_string_field :: "field \<Rightarrow> bool" where
  "is_string_field (String a mnl mxl) = True"
| "is_string_field (IntegerAsString a mnl mxl mn mx) = True"
| "is_string_field (StringFromSelection a mnl mxl selection) = True"
| "is_string_field f = False"

text \<open>An outcome is decided when it is a result or an \<^verbatim>\<open>InvalidParamsException\<close>: no
  other error, and within the depth bound.\<close>

fun decided :: "'a outcome \<Rightarrow> bool" where
  "decided (Some (Inr x, s)) = True"
| "decided (Some (Inl (InvalidParamsException m), s)) = True"
| "decided out = False"

text \<open>Validating each value of a dict against the content field is decided, from every
  context.\<close>

definition values_decide :: "execute \<Rightarrow> field \<Rightarrow> kwargs \<Rightarrow> (string \<times> json) list \<Rightarrow> bool" where
  "values_decide exec content kw d =
     list_all (\<lambda>p. \<forall>s. decided (Field_validate exec content (snd p) s kw)) d"

text \<open>A mapping from integers written as strings to integers, as \<^verbatim>\<open>Mapping(IntegerAsString(), Integer())\<close> builds it.\<close>

definition integer_key_field :: field where
  "integer_key_field = IntegerAsString field_defaults None None None None"

definition integer_mapping_field :: field where
  "integer_mapping_field = Mapping field_defaults integer_key_field (Integer field_defaults None None)"

section \<open>Conditions of a repeated validation\<close>

text \<open>A call yields \<open>r\<close> when it returns \<open>r\<close> from every context.\<close>

definition yields :: "(stack_objects \<Rightarrow> 'a outcome) \<Rightarrow> 'a \<Rightarrow> bool" where
  "yields m r = (\<forall>s. \<exists>s'. m s = Some (Inr r, s'))"

text \<open>
  A validation is stable when each of its results is validated to itself from every
  context, a value other than \<^verbatim>\<open>None\<close> is not validated to \<^verbatim>\<open>None\<close>, and a value that
  is not primitive is not validated to a primitive one; with the flag, a primitive value
  is validated to a primitive one as well.
\<close>

definition stable_validation :: "(json \<Rightarrow> stack_objects \<Rightarrow> json outcome) \<Rightarrow> bool \<Rightarrow> bool" where
  "stable_validation V primitive =
     (\<forall>v s v' s'. V v s = Some (Inr v', s') \<longrightarrow>
        yields (V v') v'
        \<and> (v \<noteq> JNull \<longrightarrow> v' \<noteq> JNull)
        \<and> (\<not> is_primitive v \<longrightarrow> \<not> is_primitive v')
        \<and> (primitive \<longrightarrow> is_primitive v \<longrightarrow> is_primitive v'))"

text \<open>The same of the reference call: each result is a dict that the call, with the
  same arguments, returns unchanged.\<close>

definition stable_execute :: "execute \<Rightarrow> bool" where
  "stable_execute exec =
     (\<forall>obj s kw v c r s'. exec obj s kw v c = Some (Inr r, s') \<longrightarrow>
        is_dict r \<and> yields (\<lambda>s2. exec r s2 kw v c) r)"

text \<open>
  A field is primitive-valued when it turns a primitive value into a primitive value.
  A field is stable when the fields it chooses between by the kind of the value keep
  that kind (the primitive alternative of a list with references, and of
  \<^verbatim>\<open>PrimitiveValueOrGetter\<close>, is primitive-valued), and an \<^verbatim>\<open>IntegerAsString\<close> has no
  bound on the length of the raw string.
\<close>

fun primitive_valued :: "field \<Rightarrow> bool" where
  "primitive_valued (Integer a mn mx) = True"
| "primitive_valued (Float a mn mx) = True"
| "primitive_valued (Boolean a) = True"
| "primitive_valued (String a mnl mxl) = True"
| "primitive_valued (IntegerAsString a mnl mxl mn mx) = True"
| "primitive_valued (StringFromSelection a mnl mxl selection) = True"
| "primitive_valued (ArbitraryJson a) = True"
| "primitive_valued (PrimitiveValueOrGetter a p c) = primitive_valued p"
| "primitive_valued f = False"

fun stable_field :: "field \<Rightarrow> bool" where
  "stable_field (List a v c None min_length fkw) = True"
| "stable_field (List a v c (Some p) min_length fkw) =
     (stable_field p \<and> ((v = None \<and> c = None) \<or> primitive_valued p))"
| "stable_field (Mapping a string_key content) =
     (stable_field string_key \<and> stable_field content)"
| "stable_field (PrimitiveValueOrGetter a p c) =
     (primitive_valued p \<and> stable_field p \<and> stable_field c)"
| "stable_field (IntegerAsString a mnl mxl mn mx) = (mnl = None \<and> mxl = None)"
| "stable_field f = True"

text \<open>The default of a field that \<^verbatim>\<open>Node.validate\<close> may store is canonical: validating
  it returns it, from every context and with every keyword arguments.\<close>

definition default_canonical :: "execute \<Rightarrow> field \<Rightarrow> bool" where
  "default_canonical exec f =
     (dont_auto_validate (attrs f) \<or> required (attrs f) \<or> dont_print_default (attrs f)
      \<or> (\<forall>kw. yields (\<lambda>s. Field_validate exec f (default_value f) s kw) (default_value f)))"

text \<open>
  A node is well formed for a repeated validation when its fields are stable, have
  different names and canonical defaults at every depth bound, and none is called
  \<^verbatim>\<open>'type'\<close> if the node has a \<^verbatim>\<open>choice_type\<close>.
\<close>

definition node_stable :: "registry \<Rightarrow> node \<Rightarrow> bool" where
  "node_stable reg cls =
     (distinct (map fst (list_of_fields cls))
      \<and> list_all (\<lambda>p. stable_field (snd p)) (list_of_fields cls)
      \<and> (\<forall>n. list_all (\<lambda>p. default_canonical (execute_function_on_node n reg) (snd p))
                 (list_of_fields cls))
      \<and> (choice_type cls = None \<or> ''type'' \<notin> set (map fst (list_of_fields cls))))"

text \<open>
  The registry is consistent, as registration leaves it: the tags of a group are
  different, and each names a registered node with that tag as its \<^verbatim>\<open>choice_type\<close>.
\<close>

definition group_consistent :: "registry \<Rightarrow> (string \<times> string) list \<Rightarrow> bool" where
  "group_consistent reg tv =
     (distinct (map fst tv)
      \<and> list_all (\<lambda>p. \<exists>c. lookup_node reg (snd p) = Inr c \<and> choice_type c = Some (fst p)) tv)"

definition registry_stable :: "registry \<Rightarrow> bool" where
  "registry_stable reg =
     (list_all (\<lambda>p. node_stable reg (snd p)) (value_to_node reg)
      \<and> list_all (\<lambda>p. group_consistent reg (snd p)) (choice_to_type_to_values reg))"

text \<open>A node with one field that selects among \<^verbatim>\<open>'a'\<close> and \<^verbatim>\<open>'b'\<close>, built by
  \<^verbatim>\<open>MultipleChoiceSelection(['a', 'b'])\<close>: its constructor sets \<^verbatim>\<open>null\<close> and
  \<^verbatim>\<open>validation_accepts_nulls\<close>, and the default is \<^verbatim>\<open>None\<close>.\<close>

definition flags_node :: node where
  "flags_node =
     \<lparr>name = ''flags'', choice_type = None, shortform_field = None,
      shortform_conversion = (\<lambda>shortform_value. shortform_value),
      quietly_drop_superfluous_fields = [],
      required_additional_arguments_for_validation = [],
      list_of_fields =
        [(''selected'',
          MultipleChoiceSelection
            (field_defaults\<lparr>null_f := True, validation_accepts_nulls := True\<rparr>) [''a'', ''b''])]\<rparr>"

definition flags_registry :: registry where
  "flags_registry = \<lparr>value_to_node = [(''flags'', flags_node)], choice_to_type_to_values = []\<rparr>"

section \<open>The scalar fields\<close>

text \<open>
  Claim C9. A \<^verbatim>\<open>Float\<close> field, whatever its minimum and maximum and its other
  attributes, rejects the float values NaN, +Infinity and -Infinity with an
  \<^verbatim>\<open>InvalidParamsException\<close>.
\<close>

theorem Float_rejects_nan_and_infinity:
  "Field_validate exec (Float a mn mx) (JFloat NaN) st kw
     = Some (Inl (InvalidParamsException ValueMustNotBeNaN), st)
   \<and> Field_validate exec (Float a mn mx) (JFloat PosInf) st kw
     = Some (Inl (InvalidParamsException ValueMustNotBeInfinite), st)
   \<and> Field_validate exec (Float a mn mx) (JFloat NegInf) st kw
     = Some (Inl (InvalidParamsException ValueMustNotBeInfinite), st)"
  by (simp add: Float_helper_for_validation_def lift_def)

text \<open>
  Claim C10. An \<^verbatim>\<open>Integer\<close> field and a \<^verbatim>\<open>Float\<close> field without bounds accept a
  Python boolean and return it unchanged; a \<^verbatim>\<open>Boolean\<close> field rejects an integer, and
  the values its \<^verbatim>\<open>helper_for_validation\<close> accepts are exactly the booleans.
\<close>

theorem Integer_and_Float_accept_booleans:
  "Field_validate exec (Integer a None None) (JBool b) st kw = Some (Inr (JBool b), st)
   \<and> Field_validate exec (Float a None None) (JBool b) st kw = Some (Inr (JBool b), st)
   \<and> Field_validate exec (Boolean a) (JInt i) st kw
       = Some (Inl (InvalidParamsException ValueMustBeBoolean), st)
   \<and> ((\<exists>r st'. helper_for_validation exec (Boolean a) v st kw = Some (Inr r, st'))
        = (\<exists>b. v = JBool b))"
  by (cases v) (simp_all add: Integer_helper_for_validation_def Float_helper_for_validation_def
        Boolean_helper_for_validation_def lift_def)

text \<open>
  Claim C7. The claim has every value outside the allowed set rejected. The code tests the
  truth value of the elements that are outside the set, so an element that is false as a
  Python object (the empty string, zero, \<^verbatim>\<open>None\<close>) passes: with the choices \<^verbatim>\<open>'a'\<close> and
  \<^verbatim>\<open>'b'\<close>, the list \<^verbatim>\<open>[""]\<close> and the string \<^verbatim>\<open>""\<close> validate to the empty list, and
  \<^verbatim>\<open>[0, "a"]\<close> to \<^verbatim>\<open>["a"]\<close>.
\<close>

theorem MultipleChoiceSelection_accepts_false_values:
  "Field_validate exec (MultipleChoiceSelection a [''a'', ''b'']) (JList [JStr '''']) st kw
     = Some (Inr (JList []), st)
   \<and> Field_validate exec (MultipleChoiceSelection a [''a'', ''b'']) (JStr '''') st kw
     = Some (Inr (JList []), st)
   \<and> Field_validate exec (MultipleChoiceSelection a [''a'', ''b'']) (JList [JInt 0, JStr ''a'']) st kw
     = Some (Inr (JList [JStr ''a'']), st)"
  by (simp add: MultipleChoiceSelection_helper_for_validation_def lift_def)

section \<open>Evaluation\<close>

text \<open>The equations that evaluate the engine on the example grammar.\<close>

lemmas example_defs =
  field_defaults_def comment_field_def val_field_def summands_field_def constant_node_def
  sum_node_def note_node_def broken_constant_node_def example_registry_def note_registry_def
  initial_stack_objects_def initial_kwargs_def

lemmas engine_defs =
  Node_validate_def shortform_step_def node_trace_step_def bind_def raise_def return_def lift_def
  invalid_field_name_def field_result_def required_def default_value_def order_result_def
  execute_body_def candidate_nodes_def type_to_values_def lookup_node_def kwargs_match_def
  select_node_def type_of_obj_def add_type_def move_to_front_def dict_has_def resolve_def
  candidate_input_def after_candidate_def adopt_def get_kwargs_to_use_def
  Integer_helper_for_validation_def Float_helper_for_validation_def
  Boolean_helper_for_validation_def String_helper_for_validation_def
  MultipleChoiceSelection_helper_for_validation_def IntegerAsString_helper_for_validation_def
  StringFromSelection_helper_for_validation_def ArbitraryJson_helper_for_validation_def

section \<open>Shortforms\<close>

text \<open>
  Claim C6, as amended. When a node declares a shortform and the raw value is no dict, the
  raw value is validated against the shortform field, without a context, and an error of
  that validation is the error of the node; then the raw value is converted, and
  validation goes on with the converted dict; a conversion that yields no dict ends the
  validation with \<^verbatim>\<open>ProgrammingError\<close>, the internal kind of error, and the trace keeps
  the step of the conversion. The search over the candidates of a group prepares its input
  in the same way.
\<close>

theorem shortform_contract:
  assumes "shortform_field cls = Some sf" and "\<not> is_dict obj"
  shows "Node_validate exec cls obj st kw =
           (case Field_validate_without_context sf obj of
              Inl e \<Rightarrow>
                Some (Inl e, st\<lparr>node_trace := node_trace st @ [''conversion from shortform''],
                                 current_object := obj\<rparr>)
            | Inr tmp \<Rightarrow>
                (case shortform_conversion cls obj of
                   JDict d \<Rightarrow> Node_validate exec cls (JDict d) st kw
                 | _ \<Rightarrow>
                     Some (Inl (ProgrammingError ShortformNotDict),
                           st\<lparr>node_trace := node_trace st @ [''conversion from shortform''],
                              current_object := obj\<rparr>)))
         \<and> candidate_input cls obj =
           (case Field_validate_without_context sf obj of
              Inl e \<Rightarrow> Inl e
            | Inr tmp \<Rightarrow>
                (case shortform_conversion cls obj of
                   JDict d \<Rightarrow> Inr (JDict d)
                 | _ \<Rightarrow> Inl (ProgrammingError ShortformNotDict)))"
proof -
  let ?entered = "st\<lparr>node_trace := node_trace st @ [''conversion from shortform''],
                       current_object := obj\<rparr>"
  have step: "shortform_step cls obj st =
           (case Field_validate_without_context sf obj of
              Inl e \<Rightarrow> Some (Inl e, ?entered)
            | Inr tmp \<Rightarrow>
                (case shortform_conversion cls obj of
                   JDict d \<Rightarrow> Some (Inr d, st)
                 | _ \<Rightarrow> Some (Inl (ProgrammingError ShortformNotDict), ?entered)))"
    using assms
    by (cases obj; cases "Field_validate_without_context sf obj"; cases "shortform_conversion cls obj")
       (simp_all add: shortform_step_def node_trace_step_def)
  have dict: "\<And>d. shortform_step cls (JDict d) st = Some (Inr d, st)"
    by (simp add: shortform_step_def)
  show ?thesis
    unfolding Node_validate_def step
    using assms
    by (cases "Field_validate_without_context sf obj"; cases "shortform_conversion cls obj")
       (simp_all add: bind_def dict candidate_input_def Node_validate_def)
qed

theorem shortform_contract_witness:
  "shortform_field constant_node = Some (Float (field_defaults\<lparr>order_of_creation := 2\<rparr>) None None)
   \<and> \<not> is_dict (JInt 5)
   \<and> Node_validate (execute_function_on_node 0 example_registry) constant_node (JInt 5)
        initial_stack_objects initial_kwargs
      = Some (Inr [(''val'', JInt 5)], initial_stack_objects)
   \<and> candidate_input constant_node (JInt 5) = Inr (JDict [(''val'', JInt 5)])
   \<and> Node_validate (execute_function_on_node 0 example_registry) constant_node (JStr ''five'')
        initial_stack_objects initial_kwargs
      = Some (Inl (InvalidParamsException ValueMustBeIntOrFloat),
              initial_stack_objects\<lparr>node_trace := [''conversion from shortform''],
                                      current_object := JStr ''five''\<rparr>)"
  using shortform_contract [of constant_node "Float (field_defaults\<lparr>order_of_creation := 2\<rparr>) None None"
          "JInt 5" "execute_function_on_node 0 example_registry" initial_stack_objects initial_kwargs]
        shortform_contract [of constant_node "Float (field_defaults\<lparr>order_of_creation := 2\<rparr>) None None"
          "JStr ''five''" "execute_function_on_node 0 example_registry" initial_stack_objects initial_kwargs]
  by (simp add: example_defs engine_defs)

text \<open>
  The claim has the failure of the conversion reported as an \<^verbatim>\<open>InvalidParamsException\<close>.
  A \<^verbatim>\<open>constant\<close> whose conversion returns the number itself fails on \<^verbatim>\<open>5\<close> with a
  \<^verbatim>\<open>ProgrammingError\<close>.
\<close>

theorem shortform_not_dict_counterexample:
  "Node_validate (execute_function_on_node 0 example_registry) broken_constant_node (JInt 5)
     initial_stack_objects initial_kwargs
   = Some (Inl (ProgrammingError ShortformNotDict),
           initial_stack_objects\<lparr>node_trace := [''conversion from shortform''],
                                   current_object := JInt 5\<rparr>)
   \<and> (\<forall>m st'. Node_validate (execute_function_on_node 0 example_registry) broken_constant_node
                  (JInt 5) initial_stack_objects initial_kwargs
                \<noteq> Some (Inl (InvalidParamsException m), st'))"
  by (simp add: example_defs engine_defs)

section \<open>Facts about dictionaries\<close>

lemma map_of_dict_set: "map_of (dict_set k v d) = (map_of d)(k \<mapsto> v)"
  by (induction d) (auto simp: fun_eq_iff)

lemma keys_dict_set: "set (map fst (dict_set k v d)) = insert k (set (map fst d))"
  by (induction d) auto

lemma distinct_dict_set: "distinct (map fst d) \<Longrightarrow> distinct (map fst (dict_set k v d))"
  by (induction d) (auto simp: keys_dict_set[simplified] image_iff, (metis fst_conv image_iff keys_dict_set[simplified] insertE list.set_map)?)

section \<open>The order of the merged fields\<close>

lemma add_class_fields_sound:
  "add_class_fields n ow items d = Inr d' \<Longrightarrow> distinct (map fst d) \<Longrightarrow>
   distinct (map fst d')
   \<and> map_of d' = map_of (rev (map (\<lambda>p. (field_name_of (fst p), snd p)) items) @ d)"
proof (induction items arbitrary: d)
  case Nil
  then show ?case by simp
next
  case (Cons p items)
  obtain k v where p: "p = (k, v)" by (cases p)
  from Cons.prems p have rest:
    "add_class_fields n ow items (dict_set (field_name_of k) v d) = Inr d'"
    by (simp split: if_splits)
  from Cons.IH [OF rest distinct_dict_set [OF Cons.prems(2)]]
  show ?case by (simp add: p map_of_dict_set map_add_def fun_eq_iff split: option.splits)
qed

lemma add_superclasses_sound:
  "add_superclasses n ow cs d = Inr d' \<Longrightarrow> distinct (map fst d) \<Longrightarrow>
   distinct (map fst d')
   \<and> map_of d' = map_of (rev (map (\<lambda>p. (field_name_of (fst p), snd p)) (concat cs)) @ d)"
proof (induction cs arbitrary: d)
  case Nil
  then show ?case by simp
next
  case (Cons c cs)
  from Cons.prems obtain d1 where d1: "add_class_fields n ow c d = Inr d1"
    and rest: "add_superclasses n ow cs d1 = Inr d'"
    by (auto split: sum.splits)
  from add_class_fields_sound [OF d1 Cons.prems(2)] Cons.IH [OF rest]
  show ?case by (simp add: map_add_def fun_eq_iff split: option.splits)
qed

text \<open>
  Claim C5, as amended. The merged field list of a node class is sorted by the creation
  order of the fields that survive the merge, holds every name once, and holds under each
  name the most specific declaration of the hierarchy: a name declared again takes the
  place of the overriding field.
\<close>

theorem merged_fields_sorted_by_creation_of_surviving_field:
  assumes "merged_fields node_name overwrites mro = Inr fs"
  shows "sorted (map (\<lambda>a. order_of_creation (attrs (snd a))) fs)
         \<and> distinct (map fst fs)
         \<and> map_of fs = map_of (rev (declarations mro))"
proof -
  from assms obtain d where d: "add_superclasses node_name overwrites (rev mro) [] = Inr d"
    and fs: "fs = sort_key (\<lambda>a. order_of_creation (attrs (snd a))) d"
    by (auto simp: merged_fields_def split: sum.splits)
  from add_superclasses_sound [OF d] have dist: "distinct (map fst d)"
    and m: "map_of d = map_of (rev (declarations mro))"
    by (simp_all add: declarations_def)
  from dist have dist': "distinct (map fst fs)"
    by (simp add: fs distinct_map)
  have "set fs = set d" by (simp add: fs)
  with dist dist' have "map_of fs = map_of d" by (simp add: map_of_inject_set)
  with m dist' show ?thesis by (simp add: fs)
qed

theorem merged_fields_witness:
  "merged_fields ''constant'' [] [[(''val'', val_field)], [(''_comment'', comment_field)]]
     = Inr (list_of_fields constant_node)
   \<and> sorted (map (\<lambda>a. order_of_creation (attrs (snd a))) (list_of_fields constant_node))
   \<and> distinct (map fst (list_of_fields constant_node))
   \<and> map_of (list_of_fields constant_node) ''val'' = Some val_field"
  using merged_fields_sorted_by_creation_of_surviving_field
          [of "''constant''" "[]" "[[(''val'', val_field)], [(''_comment'', comment_field)]]"
              "list_of_fields constant_node"]
  by (simp add: merged_fields_def dict_has_def field_name_of_def example_defs declarations_def)

text \<open>
  The claim places a field where its name was first introduced. With \<^verbatim>\<open>a\<close> and \<^verbatim>\<open>b\<close>
  declared by the base class and \<^verbatim>\<open>a\<close> declared again by the subclass, the name \<^verbatim>\<open>a\<close>
  was introduced first and comes last in the merged list.
\<close>

theorem merged_fields_counterexample:
  "merged_fields ''sub'' [''a''] [subclass_fields, base_class_fields]
     = Inr [(''b'', Integer (field_defaults\<lparr>order_of_creation := 1\<rparr>) None None),
            (''a'', String (field_defaults\<lparr>order_of_creation := 2\<rparr>) None None)]
   \<and> names_by_first_introduction [subclass_fields, base_class_fields] = [''a'', ''b'']"
  by (simp add: merged_fields_def dict_has_def field_name_of_def base_class_fields_def
        subclass_fields_def field_defaults_def names_by_first_introduction_def declarations_def)

section \<open>The order of the keys of a result\<close>

























section \<open>Isolation of the candidates\<close>

lemma immutable_fields_after_candidate [simp]:
  "immutable_fields (after_candidate st copy) = immutable_fields st"
  by (simp add: after_candidate_def)

lemma slot_after_candidate:
  "k \<notin> set (immutable_fields st) \<Longrightarrow> slot k (after_candidate st copy) = slot k st"
  by (auto simp: after_candidate_def slot_def)

lemma try_candidates_frame:
  "try_candidates vn cands obj st = Some (r, st') \<Longrightarrow>
   immutable_fields st' = immutable_fields st
   \<and> (k \<notin> set (immutable_fields st) \<longrightarrow> slot k st' = slot k st)"
proof (induction cands arbitrary: st r)
  case Nil
  then show ?case by (simp add: return_def)
next
  case (Cons a cands)
  show ?case
  proof (cases "candidate_input a obj")
    case (Inl e)
    with Cons.prems have "try_candidates vn cands obj st = Some (r, st') \<or> st' = st"
      by (cases e) (auto simp: raise_def)
    with Cons.IH show ?thesis by auto
  next
    case (Inr tmp)
    with Cons.prems obtain x copy where run: "vn a tmp st = Some (x, copy)"
      by (cases "vn a tmp st") auto
    have "(\<exists>r'. try_candidates vn cands obj (after_candidate st copy) = Some (r', st'))
          \<or> st' = after_candidate st copy"
    proof (cases x)
      case (Inl e)
      with Inr run Cons.prems show ?thesis by (cases e) (auto simp: raise_def)
    next
      case (Inr res)
      with \<open>candidate_input a obj = Inr tmp\<close> run Cons.prems show ?thesis
        by (auto simp: bind_def return_def split: option.splits sum.splits)
    qed
    then show ?thesis
    proof
      assume "\<exists>r'. try_candidates vn cands obj (after_candidate st copy) = Some (r', st')"
      then obtain r' where
        "try_candidates vn cands obj (after_candidate st copy) = Some (r', st')" by blast
      from Cons.IH [OF this] show ?thesis by (simp add: slot_after_candidate)
    next
      assume "st' = after_candidate st copy"
      then show ?thesis by (simp add: slot_after_candidate)
    qed
  qed
qed

text \<open>
  Claim C2. For a slot \<open>k\<close> of the context that \<^verbatim>\<open>immutable_fields\<close> does not name: a
  candidate that fails with \<^verbatim>\<open>InvalidParamsException\<close> is skipped, and the next
  candidates start from a context with the same slot \<open>k\<close>; the loop over the candidates
  leaves slot \<open>k\<close> as it was, however it ends and whatever validating a node does to the
  copy it is given; and so does \<^verbatim>\<open>execute_function_on_node\<close> when the search ends in an
  error.
\<close>

theorem failed_candidate_leaves_mutable_slots:
  assumes "k \<notin> set (immutable_fields st)"
  shows "(candidate_input c obj = Inr tmp_obj \<longrightarrow>
          validate_node c tmp_obj st = Some (Inl (InvalidParamsException m), copy) \<longrightarrow>
            try_candidates validate_node (c # rest) obj st
              = try_candidates validate_node rest obj (after_candidate st copy)
            \<and> slot k (after_candidate st copy) = slot k st)
       \<and> (try_candidates validate_node candidates obj st = Some (r, st') \<longrightarrow>
            slot k st' = slot k st)
       \<and> (select_node reg candidates obj choice = Inr None \<longrightarrow>
          candidate_nodes reg val choice = Inr candidates \<longrightarrow>
          execute_body reg exec obj st kw val choice = Some (Inl e, st'') \<longrightarrow>
            slot k st'' = slot k st)"
proof (intro conjI impI)
  assume "candidate_input c obj = Inr tmp_obj"
    and "validate_node c tmp_obj st = Some (Inl (InvalidParamsException m), copy)"
  then show "try_candidates validate_node (c # rest) obj st
              = try_candidates validate_node rest obj (after_candidate st copy)"
    by simp
next
  show "slot k (after_candidate st copy) = slot k st"
    using assms by (rule slot_after_candidate)
next
  assume "try_candidates validate_node candidates obj st = Some (r, st')"
  from try_candidates_frame [OF this] assms show "slot k st' = slot k st" by simp
next
  assume sel: "select_node reg candidates obj choice = Inr None"
    and cands: "candidate_nodes reg val choice = Inr candidates"
    and run: "execute_body reg exec obj st kw val choice = Some (Inl e, st'')"
  from run sel cands have
    "st'' = st
     \<or> (\<exists>x st1. try_candidates (\<lambda>c tmp_obj s. Node_validate exec c tmp_obj s kw) candidates obj st
                   = Some (x, st1)
          \<and> (st'' = st1 \<or> (\<exists>succ. x = Inr succ \<and> resolve candidates succ st1 = Some (Inl e, st''))))"
    by (auto simp: execute_body_def raise_def bind_def split: if_splits option.splits sum.splits)
  moreover have "resolve candidates succ st1 = Some (Inl e, st'') \<Longrightarrow> st'' = st1" for succ st1
    by (auto simp: resolve_def raise_def return_def
             split: list.splits option.splits sum.splits prod.splits)
  ultimately show "slot k st'' = slot k st"
    using try_candidates_frame assms by blast
qed

theorem failed_candidate_leaves_mutable_slots_witness:
  "''node_trace'' \<notin> set (immutable_fields initial_stack_objects)
   \<and> candidate_input constant_node (JDict [(''val'', JStr ''x'')]) = Inr (JDict [(''val'', JStr ''x'')])
   \<and> Node_validate (execute_function_on_node 0 example_registry) constant_node
        (JDict [(''val'', JStr ''x'')]) initial_stack_objects initial_kwargs
      = Some (Inl (InvalidParamsException ValueMustBeIntOrFloat),
              initial_stack_objects\<lparr>node_trace := [''val''], current_object := JStr ''x''\<rparr>)
   \<and> try_candidates
        (\<lambda>c tmp_obj s. Node_validate (execute_function_on_node 0 example_registry) c tmp_obj s
                          initial_kwargs)
        [constant_node, sum_node] (JDict [(''val'', JStr ''x'')]) initial_stack_objects
      = Some (Inr [], initial_stack_objects)
   \<and> slot ''node_trace'' initial_stack_objects = Some (JList [])
   \<and> execute_body example_registry (execute_function_on_node 0 example_registry)
        (JDict [(''val'', JStr ''x'')]) initial_stack_objects initial_kwargs
        None (Some ''numerical_node'')
      = Some (Inl (InvalidParamsException (NoValidWayToParse [''constant'', ''sum''])),
              initial_stack_objects)"
  using failed_candidate_leaves_mutable_slots
          [of "''node_trace''" initial_stack_objects constant_node "JDict [(''val'', JStr ''x'')]"
              "JDict [(''val'', JStr ''x'')]"
              "\<lambda>c tmp_obj s. Node_validate (execute_function_on_node 0 example_registry) c tmp_obj s
                                initial_kwargs"
              ValueMustBeIntOrFloat
              "initial_stack_objects\<lparr>node_trace := [''val''], current_object := JStr ''x''\<rparr>"
              "[sum_node]" "[constant_node, sum_node]" "Inr []" initial_stack_objects
              example_registry "Some ''numerical_node''" None
              "execute_function_on_node 0 example_registry" initial_kwargs
              "InvalidParamsException (NoValidWayToParse [''constant'', ''sum''])"
              initial_stack_objects]
  by (simp add: slot_def example_defs engine_defs)

section \<open>The search over the members of a group\<close>





lemma adopt_unshared:
  "''node_trace'' \<notin> set (immutable_fields st) \<Longrightarrow> adopt st copy = copy"
  by (simp add: adopt_def)







section \<open>The trace only grows\<close>

text \<open>Every function of the engine ends in a context that continues the one it started from; so the \<^verbatim>\<open>pop\<close> that leaves a trace step finds the step.\<close>

lemma trace_extends_refl [simp]: "trace_extends s s"
  by (simp add: trace_extends_def)

lemma trace_extends_trans:
  "trace_extends s s1 \<Longrightarrow> trace_extends s1 s2 \<Longrightarrow> trace_extends s s2"
  by (auto simp: trace_extends_def)

lemma outcome_extends_trans:
  "trace_extends s s1 \<Longrightarrow> outcome_extends s1 out \<Longrightarrow> outcome_extends s out"
  by (auto simp: outcome_extends_def intro: trace_extends_trans split: option.splits)

lemma outcome_extends_simps [simp]:
  "outcome_extends s None"
  "outcome_extends s (Some (r, s')) = trace_extends s s'"
  "outcome_extends s (raise e s)"
  "outcome_extends s (return x s)"
  "outcome_extends s (lift y s)"
  by (simp_all add: outcome_extends_def raise_def return_def lift_def)

lemma outcome_extends_bind:
  assumes "outcome_extends s m" and "\<And>x s1. trace_extends s s1 \<Longrightarrow> outcome_extends s1 (f x s1)"
  shows "outcome_extends s (bind m f)"
proof (cases m)
  case None
  then show ?thesis by (simp add: bind_def)
next
  case (Some p)
  obtain r s1 where p: "p = (r, s1)" by (cases p)
  with Some assms(1) have e: "trace_extends s s1" by simp
  show ?thesis
  proof (cases r)
    case (Inl err)
    with Some p e show ?thesis by (simp add: bind_def)
  next
    case (Inr x)
    with Some p have "bind m f = f x s1" by (simp add: bind_def)
    with outcome_extends_trans [OF e assms(2) [OF e]] show ?thesis by simp
  qed
qed

lemma node_trace_step_result:
  assumes "\<And>s1. outcome_extends s1 (body s1)"
  shows "outcome_extends s (node_trace_step x obj body s)
         \<and> (\<forall>e s'. node_trace_step x obj body s \<noteq> Some (Inl IndexError, s')
                    \<or> (\<exists>s1. body s1 = Some (Inl IndexError, s')))"
proof -
  let ?e = "s\<lparr>node_trace := node_trace s @ [x], current_object := obj\<rparr>"
  show ?thesis
  proof (cases "body ?e")
    case None
    then show ?thesis by (simp add: node_trace_step_def)
  next
    case (Some p)
    obtain r s' where p: "p = (r, s')" by (cases p)
    from assms [of ?e] Some p obtain ys where
      tr: "node_trace s' = node_trace s @ x # ys" and im: "immutable_fields s' = immutable_fields s"
      by (auto simp: trace_extends_def)
    show ?thesis
    proof (cases r)
      case (Inl err)
      with Some p tr im show ?thesis
        by (auto simp: node_trace_step_def trace_extends_def)
    next
      case (Inr v)
      have "butlast (node_trace s @ x # ys) = node_trace s @ butlast (x # ys)"
        by (simp add: butlast_append)
      with Inr Some p tr im show ?thesis
        by (auto simp: node_trace_step_def trace_extends_def)
    qed
  qed
qed

lemmas node_trace_step_extends = node_trace_step_result [THEN conjunct1]

lemma List_loop_extends:
  assumes "\<And>e s1. outcome_extends s1 (ve e s1)"
  shows "outcome_extends s (List_loop ve i xs s)"
proof (induction xs arbitrary: i s)
  case Nil
  show ?case by simp
next
  case (Cons x xs)
  show ?case
    by (simp only: List_loop.simps)
       (intro outcome_extends_bind node_trace_step_extends assms Cons.IH outcome_extends_simps)
qed

lemma Mapping_loop_extends:
  assumes "\<And>e s1. outcome_extends s1 (vk e s1)" and "\<And>e s1. outcome_extends s1 (vc e s1)"
  shows "outcome_extends s (Mapping_loop vk vc items s res)"
proof (induction items arbitrary: s res)
  case Nil
  show ?case by simp
next
  case (Cons item items)
  obtain k v where item: "item = (k, v)" by (cases item)
  have key: "outcome_extends s (node_trace_step ''key'' (JStr k) (vk (JStr k)) s)"
    by (intro node_trace_step_extends assms)
  show ?case
  proof (cases "node_trace_step ''key'' (JStr k) (vk (JStr k)) s")
    case None
    then show ?thesis by (simp add: item)
  next
    case (Some p)
    obtain r s1 where p: "p = (r, s1)" by (cases p)
    with key Some have e: "trace_extends s s1" by simp
    show ?thesis
    proof (cases r)
      case (Inl err)
      with Some p e show ?thesis by (cases err) (simp_all add: item raise_def)
    next
      case (Inr vkey)
      have "outcome_extends s1
              (bind (node_trace_step (''value for key '' @ [CHR 0x27] @ k @ [CHR 0x27]) v (vc v) s1)
                 (\<lambda>validated_value st2.
                    case vkey of
                      JStr vk \<Rightarrow>
                        if dict_has vk res
                          then raise (InvalidParamsException (KeyOccursMoreThanOnce vk)) st2
                        else Mapping_loop vk' vc' items st2 (dict_set vk validated_value res)
                    | _ \<Rightarrow> raise (ProgrammingError MappingKeyNotString) st2))"
        if "\<And>s res. outcome_extends s (Mapping_loop vk' vc' items s res)" for vk' vc'
        by (intro outcome_extends_bind node_trace_step_extends assms)
           (auto split: json.splits intro: that)
      from this [of vk vc, OF Cons.IH] Some p Inr
      have "outcome_extends s1 (Mapping_loop vk vc (item # items) s res)"
        by (simp add: item)
      with e show ?thesis by (rule outcome_extends_trans)
    qed
  qed
qed

lemma field_result_extends:
  assumes "\<And>f v s1. outcome_extends s1 (vf f v s1)"
  shows "outcome_extends s (field_result vf n f obj s res)"
  unfolding field_result_def
  by (auto split: option.splits intro!: outcome_extends_bind node_trace_step_extends assms)

lemma validate_fields_extends:
  assumes "\<And>f v s1. outcome_extends s1 (vf f v s1)"
  shows "outcome_extends s (validate_fields vf fs obj s res)"
proof (induction fs arbitrary: s res)
  case Nil
  show ?case by simp
next
  case (Cons nf fs)
  obtain n f where nf: "nf = (n, f)" by (cases nf)
  show ?case
    unfolding nf validate_fields.simps
    by (auto intro!: outcome_extends_bind field_result_extends assms Cons.IH)
qed

lemma after_candidate_extends:
  "trace_extends st copy \<Longrightarrow> trace_extends st (after_candidate st copy)"
  by (auto simp: after_candidate_def trace_extends_def)

lemma try_candidates_extends:
  assumes vn: "\<And>c tmp s. outcome_extends s (vn c tmp s)"
    and run: "try_candidates vn cands obj st = Some (r, st1)"
  shows "trace_extends st st1
         \<and> (\<forall>succ. r = Inr succ \<longrightarrow> list_all (\<lambda>p. trace_extends st (snd (snd p))) succ)"
  using run
proof (induction cands arbitrary: st r)
  case Nil
  then show ?case by (auto simp: return_def)
next
  case (Cons a cands)
  show ?case
  proof (cases "candidate_input a obj")
    case (Inl e)
    with Cons.prems have "try_candidates vn cands obj st = Some (r, st1) \<or> (st1 = st \<and> r = Inl e)"
      by (cases e) (auto simp: raise_def)
    with Cons.IH show ?thesis by auto
  next
    case (Inr tmp)
    with Cons.prems obtain x copy where run: "vn a tmp st = Some (x, copy)"
      by (cases "vn a tmp st") auto
    from vn [of st a tmp] run have ec: "trace_extends st copy" by simp
    note ea = after_candidate_extends [OF ec]
    have step: "\<And>r'. try_candidates vn cands obj (after_candidate st copy) = Some (r', st1) \<Longrightarrow>
        trace_extends st st1
        \<and> (\<forall>succ. r' = Inr succ \<longrightarrow> list_all (\<lambda>p. trace_extends st (snd (snd p))) succ)"
      using Cons.IH ea by (fastforce simp: list_all_iff intro: trace_extends_trans)
    show ?thesis
    proof (cases x)
      case (Inl e)
      with Inr run Cons.prems have
        "try_candidates vn cands obj (after_candidate st copy) = Some (r, st1)
         \<or> (st1 = after_candidate st copy \<and> r = Inl e)"
        by (cases e) (auto simp: raise_def)
      with step ea show ?thesis by auto
    next
      case (Inr res)
      with \<open>candidate_input a obj = Inr tmp\<close> run Cons.prems have
        "(\<exists>e. try_candidates vn cands obj (after_candidate st copy) = Some (Inl e, st1) \<and> r = Inl e)
         \<or> (\<exists>succ. try_candidates vn cands obj (after_candidate st copy) = Some (Inr succ, st1)
                \<and> r = Inr ((a, res, copy) # succ))"
        by (auto simp: bind_def return_def split: option.splits sum.splits)
      with step ec show ?thesis by auto
    qed
  qed
qed

lemma adopt_extends:
  "trace_extends st st1 \<Longrightarrow> trace_extends st copy \<Longrightarrow> trace_extends st (adopt st1 copy)"
  by (auto simp: adopt_def trace_extends_def)

lemma resolve_extends:
  assumes "trace_extends st st1" and "list_all (\<lambda>p. trace_extends st (snd (snd p))) succ"
  shows "outcome_extends st (resolve cands succ st1)"
  using assms
  by (auto simp: resolve_def raise_def return_def adopt_extends
           split: list.splits option.splits sum.splits prod.splits)

lemma shortform_step_extends: "outcome_extends s (shortform_step cls obj s)"
  unfolding shortform_step_def
  by (auto split: json.splits option.splits sum.splits intro!: node_trace_step_extends)

lemma helper_for_validation_extends:
  assumes exec: "\<And>obj s kw v c. outcome_extends s (exec obj s kw v c)"
  shows "outcome_extends st (helper_for_validation exec f val st kw)"
proof (induction f arbitrary: val st kw)
  case (Value a v fkw)
  show ?case by (auto split: sum.splits intro: exec)
next
  case (Choice a c fkw)
  show ?case by (auto split: sum.splits intro: exec)
next
  case (List a v c p ml fkw)
  have elem: "outcome_extends s
                 (case p of
                    Some p' \<Rightarrow>
                      if is_primitive element \<or> (v = None \<and> c = None)
                        then Field_validate exec p' element s kw
                      else (case get_kwargs_to_use kw fkw of
                              Inl e \<Rightarrow> raise e s
                            | Inr kw' \<Rightarrow> exec element s kw' v c)
                  | None \<Rightarrow>
                      (case get_kwargs_to_use kw fkw of
                         Inl e \<Rightarrow> raise e s
                       | Inr kw' \<Rightarrow> exec element s kw' v c))" for element s
    using List.IH by (auto split: option.splits sum.splits intro: exec)
  show ?case
    by (cases val) (auto intro!: outcome_extends_bind List_loop_extends elem)
next
  case (Mapping a k c)
  have "outcome_extends s (Field_validate exec k e s kw)"
       "outcome_extends s (Field_validate exec c e s kw)" for e s
    using Mapping.IH by auto
  then show ?case
    by (cases val) (auto intro!: outcome_extends_bind Mapping_loop_extends split: field.splits)
next
  case (PrimitiveValueOrGetter a p c)
  then show ?case by auto
qed simp_all

lemma Field_validate_extends:
  assumes "\<And>obj s kw v c. outcome_extends s (exec obj s kw v c)"
  shows "outcome_extends st (Field_validate exec f val st kw)"
  using helper_for_validation_extends [OF assms] by simp

lemma Node_validate_extends:
  assumes "\<And>obj s kw v c. outcome_extends s (exec obj s kw v c)"
  shows "outcome_extends st (Node_validate exec cls obj st kw)"
  unfolding Node_validate_def
  by (auto split: option.splits simp del: Field_validate.simps
           intro!: outcome_extends_bind shortform_step_extends validate_fields_extends
                   Field_validate_extends assms)

lemma execute_body_extends:
  assumes exec: "\<And>obj s kw v c. outcome_extends s (exec obj s kw v c)"
  shows "outcome_extends st (execute_body reg exec obj st kw val choice)"
proof -
  have nv: "\<And>c tmp s. outcome_extends s (Node_validate exec c tmp s kw)"
    by (rule Node_validate_extends [OF exec])
  have search: "outcome_extends st
                  (bind (try_candidates (\<lambda>c tmp_obj s. Node_validate exec c tmp_obj s kw) cands obj st)
                     (resolve cands))" for cands
  proof (cases "try_candidates (\<lambda>c tmp_obj s. Node_validate exec c tmp_obj s kw) cands obj st")
    case None
    then show ?thesis by (simp add: bind_def)
  next
    case (Some p)
    obtain r st1 where p: "p = (r, st1)" by (cases p)
    from try_candidates_extends [of "\<lambda>c tmp_obj s. Node_validate exec c tmp_obj s kw", OF nv]
      Some p
    have e: "trace_extends st st1"
      and s: "\<forall>succ. r = Inr succ \<longrightarrow> list_all (\<lambda>p. trace_extends st (snd (snd p))) succ"
      by blast+
    show ?thesis
    proof (cases r)
      case (Inl err)
      with Some p e show ?thesis by (simp add: bind_def)
    next
      case (Inr succ)
      with Some p resolve_extends [OF e, of succ cands] s show ?thesis
        by (simp add: bind_def)
    qed
  qed
  show ?thesis
    unfolding execute_body_def
    by (auto split: sum.splits option.splits
             intro!: outcome_extends_bind nv search)
qed

lemma execute_function_on_node_extends:
  "outcome_extends st (execute_function_on_node n reg obj st kw val choice)"
proof (induction n arbitrary: obj st kw val choice)
  case 0
  show ?case by simp
next
  case (Suc n)
  show ?case by (simp only: execute_function_on_node.simps) (rule execute_body_extends [OF Suc])
qed

section \<open>Colliding keys of a mapping\<close>

declare Field_validate.simps [simp del]

lemma dict_has_dict_set: "dict_has x (dict_set k v d) = (x = k \<or> dict_has x d)"
  by (simp add: dict_has_def map_of_dict_set)

lemma node_trace_step_success:
  "node_trace_step x obj body s = Some (Inr r, s1) \<Longrightarrow> \<exists>e s0. body e = Some (Inr r, s0)"
  by (auto simp: node_trace_step_def split: option.splits sum.splits prod.splits if_splits)

lemma node_trace_step_decided:
  assumes "\<And>s1. outcome_extends s1 (body s1)" and "\<And>s1. decided (body s1)"
  shows "decided (node_trace_step x obj body s)"
proof -
  let ?e = "s\<lparr>node_trace := node_trace s @ [x], current_object := obj\<rparr>"
  from assms(2) [of ?e] obtain r s0 where b: "body ?e = Some (r, s0)"
    by (cases "body ?e") auto
  with assms(1) [of ?e] have "node_trace s0 \<noteq> []" by (auto simp: trace_extends_def)
  with b assms(2) [of ?e] show ?thesis
    by (cases r) (auto simp: node_trace_step_def)
qed

lemma Mapping_loop_Cons_success:
  assumes "Mapping_loop vk vc ((k, v) # rest) s res = Some (Inr res', s')"
  shows "\<exists>c s1 v' s2. node_trace_step ''key'' (JStr k) (vk (JStr k)) s = Some (Inr (JStr c), s1)
            \<and> \<not> dict_has c res
            \<and> Mapping_loop vk vc rest s2 (dict_set c v' res) = Some (Inr res', s')"
proof -
  from assms obtain key s1 where
    key: "node_trace_step ''key'' (JStr k) (vk (JStr k)) s = Some (Inr key, s1)"
    by (cases "node_trace_step ''key'' (JStr k) (vk (JStr k)) s")
       (auto simp: raise_def split: sum.splits error.splits)
  with assms obtain v' s2 where
    rest: "(case key of
              JStr c \<Rightarrow>
                if dict_has c res
                  then raise (InvalidParamsException (KeyOccursMoreThanOnce c)) s2
                else Mapping_loop vk vc rest s2 (dict_set c v' res)
            | _ \<Rightarrow> raise (ProgrammingError MappingKeyNotString) s2) = Some (Inr res', s')"
    by (auto simp: bind_def split: option.splits sum.splits)
  then obtain c where "key = JStr c" by (cases key) (auto simp: raise_def)
  with rest key show ?thesis by (auto simp: raise_def split: if_splits)
qed

lemma Mapping_loop_keeps_keys:
  "Mapping_loop vk vc items s res = Some (Inr res', s') \<Longrightarrow> dict_has x res \<Longrightarrow> dict_has x res'"
proof (induction items arbitrary: s res)
  case Nil
  then show ?case by (simp add: return_def)
next
  case (Cons item items)
  obtain k v where item: "item = (k, v)" by (cases item)
  from Mapping_loop_Cons_success [OF Cons.prems(1) [unfolded item]] obtain c s2 v' where
    "Mapping_loop vk vc items s2 (dict_set c v' res) = Some (Inr res', s')" by blast
  from Cons.IH [OF this] Cons.prems(2) show ?case by (simp add: dict_has_dict_set)
qed

lemma Mapping_loop_new_key:
  assumes "Mapping_loop vk vc items s res = Some (Inr res', s')"
    and "(k, v) \<in> set items" and "\<And>s. vk (JStr k) s = Some (Inr (JStr c), s)"
  shows "\<not> dict_has c res"
  using assms(1,2)
proof (induction items arbitrary: s res)
  case Nil
  then show ?case by simp
next
  case (Cons item items)
  obtain k0 v0 where item: "item = (k0, v0)" by (cases item)
  from Mapping_loop_Cons_success [OF Cons.prems(1) [unfolded item]] obtain c0 s1 s2 v' where
    key: "node_trace_step ''key'' (JStr k0) (vk (JStr k0)) s = Some (Inr (JStr c0), s1)"
    and new: "\<not> dict_has c0 res"
    and rest: "Mapping_loop vk vc items s2 (dict_set c0 v' res) = Some (Inr res', s')" by blast
  show ?case
  proof (cases "(k, v) = item")
    case True
    with item have "k0 = k" by simp
    with node_trace_step_success [OF key] assms(3) have "c0 = c" by auto
    with new show ?thesis by simp
  next
    case False
    with Cons.prems(2) have "(k, v) \<in> set items" by auto
    from Cons.IH [OF rest this] show ?thesis by (simp add: dict_has_dict_set)
  qed
qed

lemma Mapping_loop_collision:
  assumes "(k1, v1) \<in> set items" and "(k2, v2) \<in> set items" and "k1 \<noteq> k2"
    and "\<And>s. vk (JStr k1) s = Some (Inr (JStr c), s)"
    and "\<And>s. vk (JStr k2) s = Some (Inr (JStr c), s)"
  shows "Mapping_loop vk vc items s res \<noteq> Some (Inr res', s')"
  using assms(1,2)
proof (induction items arbitrary: s res)
  case Nil
  then show ?case by simp
next
  case (Cons item items)
  obtain k0 v0 where item: "item = (k0, v0)" by (cases item)
  show ?case
  proof
    assume ok: "Mapping_loop vk vc (item # items) s res = Some (Inr res', s')"
    from Mapping_loop_Cons_success [OF ok [unfolded item]] obtain c0 s1 s2 v' where
      key: "node_trace_step ''key'' (JStr k0) (vk (JStr k0)) s = Some (Inr (JStr c0), s1)"
      and rest: "Mapping_loop vk vc items s2 (dict_set c0 v' res) = Some (Inr res', s')" by blast
    have head: "k0 = k \<Longrightarrow> (k', v') \<in> set (item # items) \<Longrightarrow> k' \<noteq> k \<Longrightarrow>
                (\<And>s. vk (JStr k) s = Some (Inr (JStr c), s)) \<Longrightarrow>
                (\<And>s. vk (JStr k') s = Some (Inr (JStr c), s)) \<Longrightarrow> False" for k k' v'
    proof -
      assume k: "k0 = k" and mem: "(k', v') \<in> set (item # items)" and ne: "k' \<noteq> k"
        and n1: "\<And>s. vk (JStr k) s = Some (Inr (JStr c), s)"
        and n2: "\<And>s. vk (JStr k') s = Some (Inr (JStr c), s)"
      from node_trace_step_success [OF key] n1 k have "c0 = c" by auto
      from mem ne k item have "(k', v') \<in> set items" by auto
      from Mapping_loop_new_key [OF rest this n2] \<open>c0 = c\<close> show False
        by (simp add: dict_has_dict_set)
    qed
    show False
    proof (cases "k0 = k1")
      case True
      from head [OF True Cons.prems(2) _ assms(4,5)] assms(3) show False by auto
    next
      case False
      show False
      proof (cases "k0 = k2")
        case True
        from head [OF True Cons.prems(1) assms(3) assms(5,4)] show False by auto
      next
        case k2: False
        from False k2 Cons.prems item have "(k1, v1) \<in> set items" "(k2, v2) \<in> set items"
          by auto
        from Cons.IH [OF this] rest show False by blast
      qed
    qed
  qed
qed

lemma string_field_validate:
  assumes "is_string_field f"
  shows "Field_validate exec f (JStr k) s kw = Some (helper_without_context f (JStr k), s)
         \<and> ((\<exists>c. helper_without_context f (JStr k) = Inr (JStr c))
              \<or> (\<exists>m. helper_without_context f (JStr k) = Inl (InvalidParamsException m)))"
  using assms
  by (cases f)
     (auto simp: Field_validate.simps lift_def String_helper_for_validation_def
                 IntegerAsString_helper_for_validation_def
                 StringFromSelection_helper_for_validation_def
           split: option.splits)

lemma Mapping_loop_decided:
  assumes sk: "is_string_field string_key"
    and ext: "\<And>v s. outcome_extends s (Field_validate exec content v s kw)"
    and dec: "list_all (\<lambda>p. \<forall>s. decided (Field_validate exec content (snd p) s kw)) items"
  shows "decided (Mapping_loop (\<lambda>k s. Field_validate exec string_key k s kw)
                               (\<lambda>v s. Field_validate exec content v s kw) items s res)"
  using dec
proof (induction items arbitrary: s res)
  case Nil
  show ?case by (simp add: return_def)
next
  case (Cons item items)
  obtain k v where item: "item = (k, v)" by (cases item)
  let ?vk = "\<lambda>k s. Field_validate exec string_key k s kw"
  let ?vc = "\<lambda>v s. Field_validate exec content v s kw"
  from Cons.prems have rest: "decided (Mapping_loop ?vk ?vc items s' res')" for s' res'
    using Cons.IH by simp
  from Cons.prems have val: "decided (?vc v s')" for s' by (simp add: item)
  have dval: "decided (node_trace_step x v (?vc v) s')" for x s'
    by (rule node_trace_step_decided [OF ext val])
  note key = string_field_validate [OF sk, of exec k _ kw]
  let ?e = "s\<lparr>node_trace := node_trace s @ [''key''], current_object := JStr k\<rparr>"
  from key [of ?e] have
    "(\<exists>c s1. node_trace_step ''key'' (JStr k) (?vk (JStr k)) s = Some (Inr (JStr c), s1))
     \<or> (\<exists>m s1. node_trace_step ''key'' (JStr k) (?vk (JStr k)) s
                  = Some (Inl (InvalidParamsException m), s1))"
    by (auto simp: node_trace_step_def)
  then show ?case
  proof
    assume "\<exists>c s1. node_trace_step ''key'' (JStr k) (?vk (JStr k)) s = Some (Inr (JStr c), s1)"
    then obtain c s1 where
      k: "node_trace_step ''key'' (JStr k) (?vk (JStr k)) s = Some (Inr (JStr c), s1)" by blast
    let ?x = "''value for key '' @ [CHR 0x27] @ k @ [CHR 0x27]"
    from dval [of ?x s1] obtain r s2 where v: "node_trace_step ?x v (?vc v) s1 = Some (r, s2)"
      by (cases "node_trace_step ?x v (?vc v) s1") auto
    show ?thesis
    proof (cases r)
      case (Inl e)
      with dval [of ?x s1] v obtain m where "e = InvalidParamsException m" by (cases e) auto
      with k v Inl show ?thesis
        by (simp add: item bind_def)
    next
      case (Inr v')
      with k v rest [of s2 "dict_set c v' res"] show ?thesis
        by (simp add: item bind_def raise_def)
    qed
  next
    assume "\<exists>m s1. node_trace_step ''key'' (JStr k) (?vk (JStr k)) s
                     = Some (Inl (InvalidParamsException m), s1)"
    then show ?thesis
      by (auto simp: item raise_def)
  qed
qed

text \<open>
  Claim C8. In the dict given to a \<^verbatim>\<open>Mapping\<close> field, let two different keys validate
  against the key field to the same canonical key. Then the validation of the dict does
  not succeed, so that no entry is overwritten; and when the key field is a string field
  and validating each value is decided (it succeeds or raises
  \<^verbatim>\<open>InvalidParamsException\<close>), the validation of the dict fails with
  \<^verbatim>\<open>InvalidParamsException\<close>.
\<close>

theorem Mapping_key_collision_fails:
  assumes "(k1, v1) \<in> set d" and "(k2, v2) \<in> set d" and "k1 \<noteq> k2"
    and "\<forall>s. Field_validate (execute_function_on_node n reg) string_key (JStr k1) s kw
               = Some (Inr (JStr c), s)"
    and "\<forall>s. Field_validate (execute_function_on_node n reg) string_key (JStr k2) s kw
               = Some (Inr (JStr c), s)"
  shows "(\<forall>r st'. Field_validate (execute_function_on_node n reg)
                     (Mapping a string_key content) (JDict d) st kw \<noteq> Some (Inr r, st'))
       \<and> (is_string_field string_key \<longrightarrow>
          values_decide (execute_function_on_node n reg) content kw d \<longrightarrow>
            (\<exists>m st'. Field_validate (execute_function_on_node n reg)
                        (Mapping a string_key content) (JDict d) st kw
                      = Some (Inl (InvalidParamsException m), st')))"
proof -
  let ?E = "execute_function_on_node n reg"
  let ?vk = "\<lambda>k s. Field_validate ?E string_key k s kw"
  let ?vc = "\<lambda>v s. Field_validate ?E content v s kw"
  let ?loop = "Mapping_loop ?vk ?vc d st []"
  have never: "?loop \<noteq> Some (Inr res, st')" for res st'
    using Mapping_loop_collision [of k1 v1 d k2 v2 ?vk c ?vc st "[]" res st'] assms
    by blast
  have run: "Field_validate ?E (Mapping a string_key content) (JDict d) st kw
             = bind ?loop
                 (\<lambda>res. case string_key of
                     IntegerAsString ka mnl mxl mn mx \<Rightarrow>
                       return (JDict (sort_key (\<lambda>t. the (py_int (fst t))) res))
                   | _ \<Rightarrow> return (JDict (sort_key fst res)))"
    by (simp add: Field_validate.simps)
  have first: "Field_validate ?E (Mapping a string_key content) (JDict d) st kw \<noteq> Some (Inr r, st')"
    for r st'
  proof (cases ?loop)
    case None
    then show ?thesis by (simp only: run bind_def) simp
  next
    case (Some p)
    obtain x s1 where p: "p = (x, s1)" by (cases p)
    with Some never obtain e where "x = Inl e" by (cases x) auto
    with Some p show ?thesis by (simp only: run bind_def) simp
  qed
  have second: "\<exists>m st'. Field_validate ?E (Mapping a string_key content) (JDict d) st kw
                      = Some (Inl (InvalidParamsException m), st')"
    if sk: "is_string_field string_key" and dec: "values_decide ?E content kw d"
  proof -
    have ext: "\<And>v s. outcome_extends s (Field_validate ?E content v s kw)"
      by (rule Field_validate_extends) (rule execute_function_on_node_extends)
    from Mapping_loop_decided [OF sk ext, of d st "[]"] dec
    have "decided ?loop" by (simp add: values_decide_def)
    with never obtain m s1 where "?loop = Some (Inl (InvalidParamsException m), s1)"
      by (cases ?loop rule: decided.cases) auto
    then show ?thesis by (simp only: run bind_def) simp
  qed
  from first second show ?thesis by blast
qed

lemma py_int_examples: "py_int ''1'' = Some 1" "py_int ''01'' = Some 1"
  by (simp_all add: py_int_def strip_def is_space_def unsigned_value_def digit_val_def)

lemma py_str_example: "py_str 1 = ''1''"
  by code_simp

theorem Mapping_key_collision_fails_witness:
  "(''1'', JInt 10) \<in> set [(''1'', JInt 10), (''01'', JInt 20)]
   \<and> (''01'', JInt 20) \<in> set [(''1'', JInt 10), (''01'', JInt 20)]
   \<and> ''1'' \<noteq> ''01''
   \<and> (\<forall>s. Field_validate (execute_function_on_node 0 example_registry) integer_key_field
              (JStr ''1'') s [] = Some (Inr (JStr ''1''), s))
   \<and> (\<forall>s. Field_validate (execute_function_on_node 0 example_registry) integer_key_field
              (JStr ''01'') s [] = Some (Inr (JStr ''1''), s))
   \<and> is_string_field integer_key_field
   \<and> values_decide (execute_function_on_node 0 example_registry) (Integer field_defaults None None) []
        [(''1'', JInt 10), (''01'', JInt 20)]
   \<and> Field_validate (execute_function_on_node 0 example_registry) integer_mapping_field
        (JDict [(''1'', JInt 10), (''01'', JInt 20)]) initial_stack_objects []
      = Some (Inl (InvalidParamsException (KeyOccursMoreThanOnce ''1'')), initial_stack_objects)"
  using Mapping_key_collision_fails
          [of "''1''" "JInt 10" "[(''1'', JInt 10), (''01'', JInt 20)]" "''01''" "JInt 20"
              0 example_registry integer_key_field "[]" "''1''" field_defaults
              "Integer field_defaults None None" initial_stack_objects]
  by (simp add: Field_validate.simps values_decide_def integer_key_field_def
        integer_mapping_field_def py_int_examples py_str_example example_defs engine_defs)

section \<open>Validating a result again\<close>

subsection \<open>The scalar kinds\<close>

declare str_of_nat.simps [simp del]

lemma of_char_digit_char: "d < 10 \<Longrightarrow> of_char (digit_char d) = 48 + d"
  by (simp add: digit_char_def)

lemma digit_val_digit_char: "d < 10 \<Longrightarrow> digit_val (digit_char d) = Some d"
  by (simp add: digit_val_def of_char_digit_char)

lemma digit_char_not_special:
  assumes "d < 10"
  shows "digit_char d \<noteq> CHR ''_''" "digit_char d \<noteq> CHR ''-''" "digit_char d \<noteq> CHR ''+''"
    "\<not> is_space (digit_char d)"
proof -
  have ne: "of_char c \<noteq> (48 + d :: nat) \<Longrightarrow> digit_char d \<noteq> c" for c
    using of_char_digit_char [OF assms] by auto
  show "digit_char d \<noteq> CHR ''_''" "digit_char d \<noteq> CHR ''-''" "digit_char d \<noteq> CHR ''+''"
    using assms by (auto intro!: ne)
  show "\<not> is_space (digit_char d)"
    unfolding is_space_def using assms by (auto dest!: ne [THEN notE, rotated])
qed

lemma digits_value_digits:
  "\<forall>d \<in> set ds. d < 10 \<Longrightarrow>
   digits_value acc (map digit_char ds) = Some (foldl (\<lambda>a d. 10 * a + d) acc ds)"
proof (induction ds arbitrary: acc)
  case Nil
  show ?case by simp
next
  case (Cons d ds)
  show ?case
  proof (cases ds)
    case Nil
    with Cons.prems show ?thesis by (simp add: digit_val_digit_char)
  next
    case (Cons e es)
    with Cons.prems Cons.IH [of "10 * acc + d"] show ?thesis
      by (simp add: digit_val_digit_char digit_char_not_special)
  qed
qed

lemma str_of_nat_digits:
  "\<exists>ds. str_of_nat n = map digit_char ds \<and> ds \<noteq> [] \<and> (\<forall>d \<in> set ds. d < 10)
        \<and> foldl (\<lambda>a d. 10 * a + d) 0 ds = n"
proof (induction n rule: str_of_nat.induct)
  case (1 n)
  show ?case
  proof (cases "n < 10")
    case True
    have "str_of_nat n = map digit_char [n]" using True by (subst str_of_nat.simps) simp
    with True show ?thesis by (intro exI [of _ "[n]"]) simp
  next
    case False
    from 1 [OF False] obtain ds where
      ds: "str_of_nat (n div 10) = map digit_char ds" "ds \<noteq> []" "\<forall>d \<in> set ds. d < 10"
          "foldl (\<lambda>a d. 10 * a + d) 0 ds = n div 10"
      by blast
    have "str_of_nat n = map digit_char (ds @ [n mod 10])"
      using False ds(1) by (subst str_of_nat.simps) simp
    with ds show ?thesis by (intro exI [of _ "ds @ [n mod 10]"]) simp
  qed
qed

lemma unsigned_value_str_of_nat: "unsigned_value (str_of_nat n) = Some n"
proof -
  from str_of_nat_digits [of n] obtain ds where
    ds: "str_of_nat n = map digit_char ds" "ds \<noteq> []" "\<forall>d \<in> set ds. d < 10"
        "foldl (\<lambda>a d. 10 * a + d) 0 ds = n"
    by blast
  then obtain d es where des: "ds = d # es" by (cases ds) auto
  with ds digits_value_digits [of es d] show ?thesis
    by (simp add: unsigned_value_def digit_val_digit_char)
qed

lemma strip_unchanged:
  assumes "s \<noteq> []" and "\<not> is_space (hd s)" and "\<not> is_space (last s)"
  shows "strip s = s"
proof -
  from assms have 1: "dropWhile is_space s = s" by (cases s) auto
  from assms have "\<not> is_space (hd (rev s))" by (simp add: hd_rev)
  with assms(1) have "dropWhile is_space (rev s) = rev s" by (cases "rev s") auto
  with 1 show ?thesis by (simp add: strip_def)
qed

lemma str_of_nat_ends:
  "str_of_nat n \<noteq> [] \<and> \<not> is_space (hd (str_of_nat n)) \<and> \<not> is_space (last (str_of_nat n))
   \<and> hd (str_of_nat n) \<noteq> CHR ''-'' \<and> hd (str_of_nat n) \<noteq> CHR ''+''"
proof -
  from str_of_nat_digits [of n] obtain ds where
    ds: "str_of_nat n = map digit_char ds" "ds \<noteq> []" "\<forall>d \<in> set ds. d < 10"
    by blast
  then have "hd ds < 10" "last ds < 10" by auto
  with ds(1,2) show ?thesis
    by (simp add: hd_map last_map digit_char_not_special)
qed

lemma py_int_py_str: "py_int (py_str i) = Some i"
proof (cases "i < 0")
  case True
  from str_of_nat_ends [of "nat (- i)"]
  have "strip (CHR ''-'' # str_of_nat (nat (- i))) = CHR ''-'' # str_of_nat (nat (- i))"
    by (intro strip_unchanged) (simp_all add: is_space_def)
  with True show ?thesis
    by (simp add: py_int_def py_str_def unsigned_value_str_of_nat)
next
  case False
  from str_of_nat_ends [of "nat i"] have s: "strip (str_of_nat (nat i)) = str_of_nat (nat i)"
    by (intro strip_unchanged) simp_all
  from str_of_nat_ends [of "nat i"] obtain c cs where
    c: "str_of_nat (nat i) = c # cs" "c \<noteq> CHR ''-''" "c \<noteq> CHR ''+''"
    by (cases "str_of_nat (nat i)") auto
  from unsigned_value_str_of_nat [of "nat i"] c False s show ?thesis
    by (simp add: py_int_def py_str_def)
qed

lemma insort_key_map_same_key:
  "(\<And>x. f (g x) = f x) \<Longrightarrow> map g (insort_key f x xs) = insort_key f (g x) (map g xs)"
  by (induction xs) auto

lemma sort_key_map_same_key:
  "(\<And>x. f (g x) = f x) \<Longrightarrow> map g (sort_key f xs) = sort_key f (map g xs)"
  by (induction xs) (auto simp: insort_key_map_same_key)

lemma sort_key_twice: "sort_key f (sort_key f xs) = sort_key f xs"
  by (rule sort_key_id_if_sorted) simp

lemma sort_keys_idempotent: "sort_keys (sort_keys v) = sort_keys v"
proof (induction v rule: sort_keys.induct)
  case (1 d)
  let ?g = "\<lambda>p. (fst p, sort_keys (snd p))"
  have "map ?g (sort_key fst (map ?g d)) = sort_key fst (map ?g (map ?g d))"
    by (rule sort_key_map_same_key) simp
  also have "map ?g (map ?g d) = map ?g d" using 1 by (simp add: comp_def)
  finally show ?case by (simp add: sort_key_twice)
next
  case (2 xs)
  then show ?case by simp
qed simp_all

lemma sort_keys_kind:
  "(sort_keys v = JNull) = (v = JNull)" "is_primitive (sort_keys v) = is_primitive v"
  by (cases v; simp)+

lemma MultipleChoiceSelection_again:
  assumes "MultipleChoiceSelection_helper_for_validation choices v = Inr v'"
  shows "MultipleChoiceSelection_helper_for_validation choices v' = Inr v'
         \<and> v' \<noteq> JNull \<and> \<not> is_primitive v'"
proof -
  let ?P = "\<lambda>xs a. JStr a \<in> set xs"
  have sel: "MultipleChoiceSelection_helper_for_validation choices
               (JList (map JStr (filter P choices)))
             = Inr (JList (map JStr (filter P choices)))" for P
  proof -
    let ?ys = "map JStr (filter P choices)"
    have 1: "filter (\<lambda>a. a \<notin> JStr ` set choices) ?ys = []"
      by (auto simp: filter_empty_conv)
    have "filter (\<lambda>a. JStr a \<in> set ?ys) choices = filter P choices"
      by (rule filter_cong) auto
    with 1 show ?thesis
      by (simp add: MultipleChoiceSelection_helper_for_validation_def Let_def)
  qed
  have emp: "MultipleChoiceSelection_helper_for_validation choices (JList []) = Inr (JList [])"
    by (simp add: MultipleChoiceSelection_helper_for_validation_def)
  from assms have "v' = JList [] \<or> (\<exists>xs. v' = JList (map JStr (filter (?P xs) choices)))"
    by (auto simp: MultipleChoiceSelection_helper_for_validation_def Let_def
             split: json.splits if_splits)
  with sel emp show ?thesis by auto
qed

lemma IntegerAsString_again:
  assumes "IntegerAsString_helper_for_validation None None mn mx v = Inr v'"
  shows "IntegerAsString_helper_for_validation None None mn mx v' = Inr v' \<and> is_primitive v'"
  using assms
  by (auto simp: IntegerAsString_helper_for_validation_def String_helper_for_validation_def
                 py_int_py_str
           split: json.splits option.splits if_splits sum.splits)

lemma unchanged_scalars:
  "Integer_helper_for_validation imn imx v = Inr v' \<Longrightarrow> v' = v \<and> is_primitive v"
  "Float_helper_for_validation fmn fmx v = Inr v' \<Longrightarrow> v' = v \<and> is_primitive v"
  "Boolean_helper_for_validation v = Inr v' \<Longrightarrow> v' = v \<and> is_primitive v"
  "String_helper_for_validation mnl mxl v = Inr v' \<Longrightarrow> v' = v \<and> is_primitive v"
  "StringFromSelection_helper_for_validation mnl mxl sel v = Inr v' \<Longrightarrow> v' = v \<and> is_primitive v"
  by (cases v;
      auto simp: Integer_helper_for_validation_def Float_helper_for_validation_def
                 Boolean_helper_for_validation_def String_helper_for_validation_def
                 StringFromSelection_helper_for_validation_def
           split: json.splits if_splits sum.splits)+

end
